theory Spec2Isabelle
  imports Complex_Main "HOL-Library.Word" "HOL-Library.Monad_Syntax"
begin

section \<open>Python values and string primitives\<close>

text \<open>
  Python's \<open>str\<close> is modelled as \<open>string\<close>: a list of 8-bit code points (the Latin-1
  range of Python's code points). Python's \<open>int\<close> is unbounded and modelled as \<open>int\<close>.
  Exceptions are values; only the classes that the modelled code can raise or catch are listed.
  \<open>KeyboardInterrupt\<close> is the one that does not derive from \<open>Exception\<close>.
\<close>

datatype py_exc =
    ValueError
  | ZeroDivisionError
  | OtherException string
  | KeyboardInterrupt

definition is_Exception :: "py_exc \<Rightarrow> bool" where
  "is_Exception e = (e \<noteq> KeyboardInterrupt)"

subsection \<open>Digits\<close>

text \<open>The digit of a value below 16 (the only values it is applied to).\<close>

definition digit_char :: "nat \<Rightarrow> char" where
  "digit_char d = ''0123456789abcdef'' ! d"

function hex_digits :: "nat \<Rightarrow> string" where
  "hex_digits n = (if n < 16 then [digit_char n] else hex_digits (n div 16) @ [digit_char (n mod 16)])"
  by pat_completeness auto
termination
  by (relation "measure id") auto

declare hex_digits.simps [simp del]

function dec_digits :: "nat \<Rightarrow> string" where
  "dec_digits n = (if n < 10 then [digit_char n] else dec_digits (n div 10) @ [digit_char (n mod 10)])"
  by pat_completeness auto
termination
  by (relation "measure id") auto

declare dec_digits.simps [simp del]

text \<open>\<open>str(i)\<close> for an integer: decimal digits, a minus sign for a negative number.\<close>

definition py_str :: "int \<Rightarrow> string" where
  "py_str i = (if i < 0 then CHR ''-'' # dec_digits (nat (- i)) else dec_digits (nat i))"

text \<open>
  \<open>'%02x' % i\<close>: lower-case hexadecimal, zero-padded to two characters; the sign of a negative
  number counts for the width.
\<close>

definition format_02x :: "int \<Rightarrow> string" where
  "format_02x i =
     (if i < 0 then CHR ''-'' # hex_digits (nat (- i))
      else let s = hex_digits (nat i) in replicate (2 - length s) CHR ''0'' @ s)"

text \<open>\<open>str.upper\<close>, on the ASCII letters (the only letters the program's arguments to it hold).\<close>

definition upper_char :: "char \<Rightarrow> char" where
  "upper_char c =
     (let n = (of_char c :: nat) in if 97 \<le> n \<and> n \<le> 122 then char_of (n - 32) else c)"

definition py_upper :: "string \<Rightarrow> string" where
  "py_upper s = map upper_char s"

section \<open>Colour conversion (main.py)\<close>

type_synonym rgb = "int \<times> int \<times> int"

text \<open>\<open>convert_rgb_to_hex\<close>: \<open>('#%02x%02x%02x' % rgb).upper()\<close>.\<close>

fun convert_rgb_to_hex :: "rgb \<Rightarrow> string" where
  "convert_rgb_to_hex (r, g, b) =
     py_upper (CHR ''#'' # format_02x r @ format_02x g @ format_02x b)"

text \<open>
  The decoder the round-trip property speaks of (it is not part of the program): a string
  \<open>#RRGGBB\<close> of seven characters is read back as three hexadecimal pairs.
\<close>

definition hex_value :: "char \<Rightarrow> nat option" where
  "hex_value c =
     (let n = (of_char c :: nat) in
      if 48 \<le> n \<and> n \<le> 57 then Some (n - 48)
      else if 65 \<le> n \<and> n \<le> 70 then Some (n - 55)
      else if 97 \<le> n \<and> n \<le> 102 then Some (n - 87)
      else None)"

definition hex_pair :: "char \<Rightarrow> char \<Rightarrow> int option" where
  "hex_pair h l =
     (case (hex_value h, hex_value l) of
        (Some a, Some b) \<Rightarrow> Some (int (16 * a + b))
      | _ \<Rightarrow> None)"

fun decode_hex :: "string \<Rightarrow> rgb option" where
  "decode_hex [h, r1, r0, g1, g0, b1, b0] =
     (if h = CHR ''#'' then
        (case (hex_pair r1 r0, hex_pair g1 g0, hex_pair b1 b0) of
           (Some r, Some g, Some b) \<Rightarrow> Some (r, g, b)
         | _ \<Rightarrow> None)
      else None)"
| "decode_hex _ = None"

definition upper_hex_digit :: "char \<Rightarrow> bool" where
  "upper_hex_digit c = (c \<in> set ''0123456789ABCDEF'')"

definition u8 :: "int \<Rightarrow> bool" where
  "u8 x = (0 \<le> x \<and> x \<le> 255)"

section \<open>File names (main.py, with \<open>posixpath\<close>)\<close>

text \<open>
  \<open>str.split(sep)\<close> for a one-character separator: the fields between the separators, empty
  fields kept; the result is never empty.
\<close>

fun split_on :: "char \<Rightarrow> string \<Rightarrow> string list" where
  "split_on c [] = [[]]"
| "split_on c (x # xs) =
     (if x = c then [] # split_on c xs
      else (case split_on c xs of
              w # ws \<Rightarrow> (x # w) # ws
            | [] \<Rightarrow> [[x]]))"

text \<open>\<open>os.path.basename(p)\<close>: \<open>p[p.rfind('/') + 1:]\<close>.\<close>

definition basename :: "string \<Rightarrow> string" where
  "basename p = rev (takeWhile (\<lambda>c. c \<noteq> CHR ''/'') (rev p))"

text \<open>
  \<open>os.path.dirname(p)\<close>: the part up to and including the last slash, its trailing slashes
  removed unless it consists of slashes only.
\<close>

definition dirname :: "string \<Rightarrow> string" where
  "dirname p =
     (let head = take (length p - length (basename p)) p
      in if head \<noteq> [] \<and> \<not> list_all (\<lambda>c. c = CHR ''/'') head
         then rev (dropWhile (\<lambda>c. c = CHR ''/'') (rev head))
         else head)"

definition get_image_info :: "string \<Rightarrow> string \<times> string" where
  "get_image_info image_path = (dirname image_path, basename image_path)"

text \<open>\<open>os.path.join(a, b)\<close> for two components.\<close>

definition path_join :: "string \<Rightarrow> string \<Rightarrow> string" where
  "path_join a b =
     (if b \<noteq> [] \<and> hd b = CHR ''/'' then b
      else if a = [] \<or> last a = CHR ''/'' then a @ b
      else a @ ''/'' @ b)"

text \<open>
  The name under which \<open>save_palette\<close> stores the rendered image:
  \<open>image_name.split('.')[0]\<close> followed by \<open>_palette.png\<close>, joined to the output directory.
\<close>

definition save_palette_path :: "string \<Rightarrow> string \<Rightarrow> string" where
  "save_palette_path save_path image_path =
     (let image_name = snd (get_image_info image_path);
          image_name = hd (split_on CHR ''.'' image_name)
      in path_join save_path (image_name @ ''_palette.png''))"

text \<open>
  The names \<open>export\<close> computes for one palette: the palette name handed to the exporter, the
  file name and the file path.
\<close>

definition export_names :: "string \<Rightarrow> string \<Rightarrow> string \<Rightarrow> string \<times> string \<times> string" where
  "export_names save_path image_path extension =
     (let image_name = snd (get_image_info image_path);
          image_name = hd (split_on CHR ''.'' image_name);
          file_name = image_name @ ''_palette.'' @ extension;
          file_path = path_join save_path file_name
      in (image_name, file_name, file_path))"

section \<open>Exporters (modules/export.py)\<close>

type_synonym byte = "8 word"

text \<open>
  \<open>bytearray(xs)\<close> of a list of integers: \<open>ValueError\<close> unless every element is in
  \<open>range(0, 256)\<close>.
\<close>

definition bytearray :: "int list \<Rightarrow> py_exc + byte list" where
  "bytearray xs =
     (if list_all (\<lambda>x. 0 \<le> x \<and> x < 256) xs then Inr (map word_of_int xs) else Inl ValueError)"

text \<open>
  A file opened for writing starts empty; the model of an exporter returns the contents written
  and the exception that ended the call, if any. Failures of the file system itself (\<open>open\<close>,
  \<open>write\<close>) are outside the model.
\<close>

fun aco_colors :: "rgb list \<Rightarrow> byte list \<Rightarrow> byte list \<times> py_exc option" where
  "aco_colors [] f = (f, None)"
| "aco_colors ((r, g, b) # cs) f =
     (case bytearray [0, 0, r, r, g, g, b, b, 0, 0] of
        Inl e \<Rightarrow> (f, Some e)
      | Inr block \<Rightarrow> aco_colors cs (f @ block))"

text \<open>
  \<open>ExportToACO.export\<close>. \<open>floor(nb/255)\<close> divides in floating point; for the lengths a list
  can have it equals \<open>nb div 255\<close>, and it exceeds 255 exactly when \<open>nb div 255\<close> does.
\<close>

definition ExportToACO_export ::
  "string \<Rightarrow> rgb list \<Rightarrow> string list \<Rightarrow> byte list \<times> py_exc option" where
  "ExportToACO_export palette_name palette_rgb palette_hex =
     (let nb = int (length palette_rgb);
          nb_1 = nb div 255;
          nb_2 = nb mod 255
      in case bytearray [0, 1] of
           Inl e \<Rightarrow> ([], Some e)
         | Inr version \<Rightarrow>
             (case bytearray [nb_1, nb_2] of
                Inl e \<Rightarrow> (version, Some e)
              | Inr count \<Rightarrow> aco_colors palette_rgb (version @ count)))"

text \<open>An RGB triple of 8-bit components, and the ten integers of its block in the ACO stream.\<close>

definition valid_rgb :: "rgb \<Rightarrow> bool" where
  "valid_rgb c = (case c of (r, g, b) \<Rightarrow> u8 r \<and> u8 g \<and> u8 b)"

fun aco_block :: "rgb \<Rightarrow> int list" where
  "aco_block (r, g, b) = [0, 0, r, r, g, g, b, b, 0, 0]"

section \<open>Configuration and palettes (main.py)\<close>

text \<open>
  The \<open>config["palette"]\<close> dictionary, read once at start-up; the functions below take it as
  an argument. \<open>getint\<close> accepts any integer.
\<close>

record config =
  palette_size :: int
  square_x :: int
  square_y :: int
  columns :: int
  title_size :: int
  subtitle_size :: int
  title_font :: string
  subtitle_font :: string
  resize :: bool
  clear_console :: bool
  save_path :: string

text \<open>The fall-back values, for a program installed in \<open>basedir\<close>.\<close>

definition default_config :: "string \<Rightarrow> config" where
  "default_config basedir =
     \<lparr>palette_size = 9, square_x = 100, square_y = 100, columns = 3,
      title_size = 18, subtitle_size = 14,
      title_font = ''Lato-Black.ttf'', subtitle_font = ''Lato-Regular.ttf'',
      resize = True, clear_console = True, save_path = path_join basedir ''output''\<rparr>"

text \<open>
  A colour of the extraction library carries its RGB triple; its frequency and luminance are
  floating-point numbers that only the labels of a swatch depend on, and are not modelled.
  A palette is the list \<open>palette.colors\<close>.
\<close>

record color =
  rgb :: rgb

type_synonym palette = "color list"

definition palette_to_rgb :: "palette \<Rightarrow> rgb list" where
  "palette_to_rgb p = map rgb p"

record PaletteObject =
  palette :: palette
  image_path :: string
  palette_path :: string

record PaletteList =
  palettes :: "PaletteObject list"

section \<open>Swatch image (main.py)\<close>

text \<open>
  The rendered image is modelled by its size and the rectangles drawn on it, in drawing order,
  each with the vertical positions of its two labels. The horizontal label positions depend on
  the font metrics of the imaging library and are left out, as is the label colour.
\<close>

record swatch =
  box :: "int \<times> int \<times> int \<times> int"
  fill :: rgb
  outline :: string
  text_y :: int
  subtitle_y :: int

record image =
  image_width :: int
  image_height :: int
  swatches :: "swatch list"

text \<open>
  \<open>ceil(a / b)\<close>: \<open>ZeroDivisionError\<close> for \<open>b = 0\<close>. The division is in floating point; it is
  exact enough for the ceiling to be the integer one as long as \<open>a\<close> is below \<open>2 ^ 53\<close>, which
  the length of a list is.
\<close>

definition py_ceil_div :: "int \<Rightarrow> int \<Rightarrow> py_exc + int" where
  "py_ceil_div a b = (if b = 0 then Inl ZeroDivisionError else Inr (- ((- a) div b)))"

text \<open>\<open>Image.new\<close> refuses a negative width or height.\<close>

definition Image_new :: "int \<Rightarrow> int \<Rightarrow> py_exc + image" where
  "Image_new w h =
     (if w < 0 \<or> h < 0 then Inl ValueError
      else Inr \<lparr>image_width = w, image_height = h, swatches = []\<rparr>)"

text \<open>The body of the loop over \<open>enumerate(zip(palette.colors, palette_rgb))\<close>.\<close>

definition draw_swatch :: "config \<Rightarrow> nat \<Rightarrow> rgb \<Rightarrow> swatch" where
  "draw_swatch cfg i c =
     (let col = int i mod columns cfg;
          ligne = int i div columns cfg;
          x = col * square_x cfg;
          y = ligne * square_y cfg;
          color_hex = convert_rgb_to_hex c;
          ty = (if square_x cfg < square_y cfg
                then y + square_x cfg div 2 - title_size cfg div 2
                else y + square_y cfg div 2 - title_size cfg div 2)
      in \<lparr>box = (x, y, x + square_x cfg, y + square_y cfg), fill = c, outline = color_hex,
          text_y = ty, subtitle_y = ty + title_size cfg + subtitle_size cfg div 2\<rparr>)"

definition create_palette_image :: "config \<Rightarrow> palette \<Rightarrow> rgb list \<Rightarrow> py_exc + image" where
  "create_palette_image cfg p p_rgb =
     (case py_ceil_div (int (length p)) (columns cfg) of
        Inl e \<Rightarrow> Inl e
      | Inr lines \<Rightarrow>
          (case Image_new (columns cfg * square_x cfg) (lines * square_y cfg) of
             Inl e \<Rightarrow> Inl e
           | Inr img \<Rightarrow>
               Inr (img\<lparr>swatches :=
                      map (\<lambda>(i, (color, c)). draw_swatch cfg i c)
                        (enumerate 0 (zip p p_rgb))\<rparr>)))"

section \<open>Extraction of a batch of images (main.py)\<close>

text \<open>
  What the program calls outside itself: the extraction library, and the file system when the
  rendered image is stored (\<open>os.makedirs\<close> and \<open>image.save\<close>), which returns the exception
  raised, if any.
\<close>

record env =
  extract_colors :: "string \<Rightarrow> int \<Rightarrow> bool \<Rightarrow> py_exc + palette"
  image_save :: "string \<Rightarrow> image \<Rightarrow> py_exc option"

definition get_palette :: "env \<Rightarrow> config \<Rightarrow> string \<Rightarrow> py_exc + (palette \<times> rgb list)" where
  "get_palette ev cfg path =
     (case extract_colors ev path (palette_size cfg) (resize cfg) of
        Inl e \<Rightarrow> Inl e
      | Inr p \<Rightarrow> Inr (p, palette_to_rgb p))"

definition save_palette :: "env \<Rightarrow> config \<Rightarrow> palette \<Rightarrow> rgb list \<Rightarrow> string \<Rightarrow> py_exc + string" where
  "save_palette ev cfg p p_rgb path =
     (case create_palette_image cfg p p_rgb of
        Inl e \<Rightarrow> Inl e
      | Inr img \<Rightarrow>
          (let file_path = save_palette_path (save_path cfg) path
           in case image_save ev file_path img of
                Some e \<Rightarrow> Inl e
              | None \<Rightarrow> Inr file_path))"

text \<open>
  The loop \<open>for image_path in images\<close> of \<open>main\<close>. \<open>get_palette\<close> is called before the
  \<open>try\<close>: its exception leaves the loop. \<open>except Exception\<close> catches what \<open>save_palette\<close>
  raises, prints it (the second component collects what is printed) and goes on with the next
  image; an exception that is not an \<open>Exception\<close> leaves the loop too.
\<close>

fun extraction_loop ::
  "env \<Rightarrow> config \<Rightarrow> string list \<Rightarrow> PaletteList \<times> py_exc list
     \<Rightarrow> py_exc + (PaletteList \<times> py_exc list)" where
  "extraction_loop ev cfg [] st = Inr st"
| "extraction_loop ev cfg (path # images) (pl, printed) =
     (case get_palette ev cfg path of
        Inl e \<Rightarrow> Inl e
      | Inr (p, p_rgb) \<Rightarrow>
          (case save_palette ev cfg p p_rgb path of
             Inr file_path \<Rightarrow>
               extraction_loop ev cfg images
                 (pl\<lparr>palettes := palettes pl
                        @ [\<lparr>palette = p, image_path = path, palette_path = file_path\<rparr>]\<rparr>,
                  printed)
           | Inl e \<Rightarrow>
               if is_Exception e then extraction_loop ev cfg images (pl, printed @ [e])
               else Inl e))"

text \<open>\<open>palettes_list.palettes = []\<close>, then the loop.\<close>

definition extract_images ::
  "env \<Rightarrow> config \<Rightarrow> PaletteList \<Rightarrow> string list \<Rightarrow> py_exc + (PaletteList \<times> py_exc list)" where
  "extract_images ev cfg pl images = extraction_loop ev cfg images (pl\<lparr>palettes := []\<rparr>, [])"

text \<open>
  The record a path gives when both its extraction and its rendering succeed.
\<close>

definition processed :: "env \<Rightarrow> config \<Rightarrow> string \<Rightarrow> PaletteObject option" where
  "processed ev cfg path =
     (case get_palette ev cfg path of
        Inl e \<Rightarrow> None
      | Inr (p, p_rgb) \<Rightarrow>
          (case save_palette ev cfg p p_rgb path of
             Inl e \<Rightarrow> None
           | Inr file_path \<Rightarrow> Some \<lparr>palette = p, image_path = path, palette_path = file_path\<rparr>))"

definition extraction_ok :: "env \<Rightarrow> config \<Rightarrow> string \<Rightarrow> bool" where
  "extraction_ok ev cfg path = (case get_palette ev cfg path of Inl e \<Rightarrow> False | Inr r \<Rightarrow> True)"

definition render_interrupted :: "env \<Rightarrow> config \<Rightarrow> string \<Rightarrow> bool" where
  "render_interrupted ev cfg path =
     (case get_palette ev cfg path of
        Inl e \<Rightarrow> False
      | Inr (p, p_rgb) \<Rightarrow> save_palette ev cfg p p_rgb path = Inl KeyboardInterrupt)"

text \<open>The exception that is printed for a path: the one its rendering raises.\<close>

definition render_error :: "env \<Rightarrow> config \<Rightarrow> string \<Rightarrow> py_exc option" where
  "render_error ev cfg path =
     (case get_palette ev cfg path of
        Inl e \<Rightarrow> None
      | Inr (p, p_rgb) \<Rightarrow>
          (case save_palette ev cfg p p_rgb path of
             Inl e \<Rightarrow> Some e
           | Inr file_path \<Rightarrow> None))"

text \<open>
  An environment to run the loop on: the extraction fails on \<open>b.png\<close> and gives a palette of
  one colour for every other path; storing the image fails for \<open>c.png\<close>.
\<close>

definition example_env :: env where
  "example_env =
     \<lparr>extract_colors =
        (\<lambda>path n r. if path = ''b.png'' then Inl (OtherException ''unreadable'')
                    else Inr [\<lparr>rgb = (255, 0, 171)\<rparr>]),
      image_save =
        (\<lambda>file img. if file = ''/app/output/c_palette.png'' then Some (OtherException ''disk'')
                     else None)\<rparr>"

section \<open>Palette index of a command (main.py)\<close>

text \<open>
  \<open>str.strip()\<close> removes the white space at both ends: the code points for which
  \<open>str.isspace\<close> holds, here those below 256.
\<close>

definition is_space :: "char \<Rightarrow> bool" where
  "is_space c =
     (let n = (of_char c :: nat)
      in (9 \<le> n \<and> n \<le> 13) \<or> (28 \<le> n \<and> n \<le> 32) \<or> n = 133 \<or> n = 160)"

definition py_strip :: "string \<Rightarrow> string" where
  "py_strip s = rev (dropWhile is_space (rev (dropWhile is_space s)))"

definition startswith :: "string \<Rightarrow> string \<Rightarrow> bool" where
  "startswith s p = (take (length p) s = p)"

text \<open>
  \<open>int(s)\<close> for a string, base 10: white space at both ends (of the code points below 128
  only tab to carriage return and the space count here), an optional sign, then decimal digits
  where single underscores may stand between two digits. \<open>None\<close> stands for \<open>ValueError\<close>.
  The limit that recent interpreters put on the number of digits (4300) is not modelled.
\<close>

definition int_space :: "char \<Rightarrow> bool" where
  "int_space c =
     (let n = (of_char c :: nat) in (9 \<le> n \<and> n \<le> 13) \<or> n = 32 \<or> n = 133 \<or> n = 160)"

definition is_digit :: "char \<Rightarrow> bool" where
  "is_digit c = (let n = (of_char c :: nat) in 48 \<le> n \<and> n \<le> 57)"

fun digit_group :: "string \<Rightarrow> bool" where
  "digit_group [] = False"
| "digit_group [c] = is_digit c"
| "digit_group (c # d # r) =
     (is_digit c \<and> (if d = CHR ''_'' then digit_group r else digit_group (d # r)))"

definition digits_value :: "string \<Rightarrow> nat" where
  "digits_value ds =
     foldl (\<lambda>acc c. if c = CHR ''_'' then acc else 10 * acc + (of_char c - 48)) 0 ds"

definition py_int :: "string \<Rightarrow> int option" where
  "py_int s =
     (let t = dropWhile int_space s;
          (neg, t) = (case t of
                        c # r \<Rightarrow> if c = CHR ''+'' then (False, r)
                                 else if c = CHR ''-'' then (True, r)
                                 else (False, t)
                      | [] \<Rightarrow> (False, t));
          ds = takeWhile (\<lambda>c. is_digit c \<or> c = CHR ''_'') t;
          rest = dropWhile (\<lambda>c. is_digit c \<or> c = CHR ''_'') t
      in if digit_group ds \<and> list_all int_space rest
         then Some (if neg then - int (digits_value ds) else int (digits_value ds))
         else None)"

text \<open>
  \<open>get_indice_from_option\<close>: the index of the palette a command names, \<open>-1\<close> for every
  palette, \<open>None\<close> for an invalid index.
\<close>

definition get_indice_from_option :: "string \<Rightarrow> PaletteList \<Rightarrow> bool \<Rightarrow> int option" where
  "get_indice_from_option line palettes_list al =
     (let indice_split = split_on CHR '' '' (py_strip line);
          check = (\<lambda>indice. if indice < 1 \<or> indice > int (length (palettes palettes_list))
                             then None else Some indice)
      in if length indice_split > 1 then
           (if startswith (indice_split ! 1) ''-'' \<or> startswith (indice_split ! 1) ''--''
            then check 1
            else if al \<and> indice_split ! 1 \<in> set [''all'', ''ALL''] then Some (- 1)
            else (case py_int (indice_split ! 1) of
                    None \<Rightarrow> None
                  | Some indice \<Rightarrow> check indice))
         else check 1)"

text \<open>A collection of five records, to run the function on.\<close>

definition five_palettes :: PaletteList where
  "five_palettes =
     \<lparr>palettes = replicate 5
        \<lparr>palette = [\<lparr>rgb = (255, 0, 171)\<rparr>], image_path = ''a.png'',
         palette_path = ''/app/output/a_palette.png''\<rparr>\<rparr>"

section \<open>Text exporters (modules/export.py)\<close>

abbreviation LF :: char where "LF \<equiv> CHR 0x0A"
abbreviation CR :: char where "CR \<equiv> CHR 0x0D"
abbreviation DQ :: char where "DQ \<equiv> CHR 0x22"

subsection \<open>GPL\<close>

text \<open>
  \<open>ExportToGPL.export\<close>: the string handed to \<open>f.write\<close>. An f-string renders an integer
  as \<open>str\<close> does.
\<close>

definition gpl_header :: "string \<Rightarrow> nat \<Rightarrow> string list" where
  "gpl_header palette_name n =
     [''GIMP Palette'', ''Name: '' @ palette_name, ''Columns: 5'', ''#'',
      ''# Number : '' @ py_str (int n), ''#'']"

fun gpl_color :: "nat \<times> rgb \<Rightarrow> string" where
  "gpl_color (i, (r, g, b)) =
     py_str r @ '' '' @ py_str g @ '' '' @ py_str b @ '' Index '' @ py_str (int i)"

definition ExportToGPL_export :: "string \<Rightarrow> rgb list \<Rightarrow> string list \<Rightarrow> string" where
  "ExportToGPL_export palette_name palette_rgb palette_hex =
     (let output = ''GIMP Palette'' @ [LF]
                   @ ''Name: '' @ palette_name @ [LF]
                   @ ''Columns: 5'' @ [LF]
                   @ ''#'' @ [LF]
                   @ ''# Number : '' @ py_str (int (length palette_rgb)) @ [LF]
                   @ ''#'' @ [LF]
      in foldl (\<lambda>output ic. output @ gpl_color ic @ [LF]) output (enumerate 0 palette_rgb))"

subsection \<open>CSV\<close>

text \<open>
  \<open>csv.writer\<close> with the delimiter \<open>,\<close>, the quote character \<open>"\<close>, \<open>QUOTE_MINIMAL\<close> and the
  line terminator \<open>\r\n\<close> (the file is opened with \<open>newline=''\<close>, which writes it as it is):
  a field is quoted when it holds the delimiter, the quote character or a character of the line
  terminator, and a quote character inside it is doubled; a row of one empty field is written
  as two quote characters.
\<close>

definition csv_special :: "char \<Rightarrow> bool" where
  "csv_special c = (c = CHR '','' \<or> c = DQ \<or> c = CR \<or> c = LF)"

definition csv_quoted :: "string \<Rightarrow> string" where
  "csv_quoted f = DQ # concat (map (\<lambda>c. if c = DQ then [DQ, DQ] else [c]) f) @ [DQ]"

definition csv_field :: "string \<Rightarrow> string" where
  "csv_field f = (if list_ex csv_special f then csv_quoted f else f)"

fun join_fields :: "string list \<Rightarrow> string" where
  "join_fields [] = []"
| "join_fields [f] = f"
| "join_fields (f # g # fs) = f @ '','' @ join_fields (g # fs)"

definition csv_writerow :: "string list \<Rightarrow> string" where
  "csv_writerow fs =
     (if fs = [[]] then [DQ, DQ] else join_fields (map csv_field fs)) @ [CR, LF]"

text \<open>
  \<open>ExportToCSV.export\<close>: \<open>DictWriter.writeheader\<close>, then one row per pair of
  \<open>zip(palette_rgb, palette_hex)\<close>; the writer turns an integer into \<open>str\<close> of it.
\<close>

fun csv_color_row :: "rgb \<times> string \<Rightarrow> string list" where
  "csv_color_row ((r, g, b), h) = [py_str r, py_str g, py_str b, h]"

definition ExportToCSV_export :: "string \<Rightarrow> rgb list \<Rightarrow> string list \<Rightarrow> string" where
  "ExportToCSV_export palette_name palette_rgb palette_hex =
     csv_writerow [''R'', ''G'', ''B'', ''HEX'']
     @ concat (map (\<lambda>row. csv_writerow (csv_color_row row)) (zip palette_rgb palette_hex))"

text \<open>
  The reader that re-parses a CSV text (it is not part of the program): the state machine of
  \<open>csv.reader\<close> for the same dialect, on the text of a file opened with \<open>newline=''\<close>. A record
  ends at \<open>\n\<close>, \<open>\r\n\<close> or \<open>\r\<close> outside a quoted field (after \<open>\r\<close> the state \<open>AfterCR\<close>
  skips a \<open>\n\<close> and otherwise starts a record); an empty line gives an empty record;
  at the end of the text an unfinished record is returned with the field read so far.
\<close>

datatype csv_state = StartRecord | AfterCR | StartField | InField | InQuoted | QuoteInQuoted

fun csv_reader :: "csv_state \<Rightarrow> string \<Rightarrow> string list \<Rightarrow> string \<Rightarrow> string list list" where
  "csv_reader st cur fs [] = (if st = StartRecord \<or> st = AfterCR then [] else [fs @ [cur]])"
| "csv_reader StartRecord cur fs (c # cs) =
     (if c = CR then [] # csv_reader AfterCR [] [] cs
      else if c = LF then [] # csv_reader StartRecord [] [] cs
      else if c = DQ then csv_reader InQuoted [] [] cs
      else if c = CHR '','' then csv_reader StartField [] [[]] cs
      else csv_reader InField [c] [] cs)"
| "csv_reader AfterCR cur fs (c # cs) =
     (if c = LF then csv_reader StartRecord [] [] cs
      else if c = CR then [] # csv_reader AfterCR [] [] cs
      else if c = DQ then csv_reader InQuoted [] [] cs
      else if c = CHR '','' then csv_reader StartField [] [[]] cs
      else csv_reader InField [c] [] cs)"
| "csv_reader StartField cur fs (c # cs) =
     (if c = CR then (fs @ [[]]) # csv_reader AfterCR [] [] cs
      else if c = LF then (fs @ [[]]) # csv_reader StartRecord [] [] cs
      else if c = DQ then csv_reader InQuoted [] fs cs
      else if c = CHR '','' then csv_reader StartField [] (fs @ [[]]) cs
      else csv_reader InField [c] fs cs)"
| "csv_reader InField cur fs (c # cs) =
     (if c = CR then (fs @ [cur]) # csv_reader AfterCR [] [] cs
      else if c = LF then (fs @ [cur]) # csv_reader StartRecord [] [] cs
      else if c = CHR '','' then csv_reader StartField [] (fs @ [cur]) cs
      else csv_reader InField (cur @ [c]) fs cs)"
| "csv_reader InQuoted cur fs (c # cs) =
     (if c = DQ then csv_reader QuoteInQuoted cur fs cs
      else csv_reader InQuoted (cur @ [c]) fs cs)"
| "csv_reader QuoteInQuoted cur fs (c # cs) =
     (if c = DQ then csv_reader InQuoted (cur @ [DQ]) fs cs
      else if c = CHR '','' then csv_reader StartField [] (fs @ [cur]) cs
      else if c = CR then (fs @ [cur]) # csv_reader AfterCR [] [] cs
      else if c = LF then (fs @ [cur]) # csv_reader StartRecord [] [] cs
      else csv_reader InField (cur @ [c]) fs cs)"

definition csv_read :: "string \<Rightarrow> string list list" where
  "csv_read s = csv_reader StartRecord [] [] s"

text \<open>
  Reading the records back as a palette: the first record is the header, every other record
  holds three integers and the hex string.
\<close>

fun csv_decode_row :: "string list \<Rightarrow> (rgb \<times> string) option" where
  "csv_decode_row [r, g, b, h] =
     (case (py_int r, py_int g, py_int b) of
        (Some r', Some g', Some b') \<Rightarrow> Some ((r', g', b'), h)
      | _ \<Rightarrow> None)"
| "csv_decode_row _ = None"

fun those_rows :: "(rgb \<times> string) option list \<Rightarrow> (rgb \<times> string) list option" where
  "those_rows [] = Some []"
| "those_rows (None # rs) = None"
| "those_rows (Some r # rs) = (case those_rows rs of None \<Rightarrow> None | Some xs \<Rightarrow> Some (r # xs))"

definition csv_decode :: "string list list \<Rightarrow> (rgb list \<times> string list) option" where
  "csv_decode recs =
     (case recs of
        [] \<Rightarrow> None
      | header # rows \<Rightarrow>
          if header = [''R'', ''G'', ''B'', ''HEX'']
          then (case those_rows (map csv_decode_row rows) of
                  None \<Rightarrow> None
                | Some xs \<Rightarrow> Some (map fst xs, map snd xs))
          else None)"

text \<open>A row as plain text: the four fields with commas between them, nothing quoted.\<close>

fun csv_plain_line :: "rgb \<times> string \<Rightarrow> string" where
  "csv_plain_line ((r, g, b), h) = py_str r @ '','' @ py_str g @ '','' @ py_str b @ '','' @ h"

subsection \<open>JSON\<close>

abbreviation BS :: char where "BS \<equiv> CHR 0x5C"

text \<open>
  \<open>json.dump\<close> with its defaults (\<open>ensure_ascii\<close>, the separators \<open>, \<close> and \<open>: \<close>). In a string
  the quote and the backslash are escaped with a backslash, the control characters \<open>\b\<close>, \<open>\t\<close>,
  \<open>\n\<close>, \<open>\f\<close>, \<open>\r\<close> by their letter, and every other character outside the printable ASCII
  range as \<open>\uXXXX\<close> with four lower-case hexadecimal digits. A tuple is written as a list.
\<close>

definition hex4 :: "nat \<Rightarrow> string" where
  "hex4 n = [digit_char (n div 4096 mod 16), digit_char (n div 256 mod 16),
             digit_char (n div 16 mod 16), digit_char (n mod 16)]"

definition json_escape :: "char \<Rightarrow> string" where
  "json_escape c =
     (let n = (of_char c :: nat)
      in if c = DQ then [BS, DQ]
         else if c = BS then [BS, BS]
         else if n = 10 then [BS, CHR ''n'']
         else if n = 13 then [BS, CHR ''r'']
         else if n = 9 then [BS, CHR ''t'']
         else if n = 8 then [BS, CHR ''b'']
         else if n = 12 then [BS, CHR ''f'']
         else if n < 32 \<or> 127 \<le> n then [BS, CHR ''u''] @ hex4 n
         else [c])"

definition json_string :: "string \<Rightarrow> string" where
  "json_string s = DQ # concat (map json_escape s) @ [DQ]"

fun json_items :: "string list \<Rightarrow> string" where
  "json_items [] = []"
| "json_items [x] = x"
| "json_items (x # y # xs) = x @ '', '' @ json_items (y # xs)"

definition json_list :: "string list \<Rightarrow> string" where
  "json_list items = ''['' @ json_items items @ '']''"

text \<open>
  \<open>ExportToJSon.export\<close>: the dictionary \<open>{"name": ..., "rgb": ..., "hex": ...}\<close>, its keys in
  insertion order; \<open>int(color[k])\<close> leaves an integer as it is.
\<close>

fun json_color :: "rgb \<Rightarrow> string" where
  "json_color (r, g, b) = json_list [py_str r, py_str g, py_str b]"

definition ExportToJSon_export :: "string \<Rightarrow> rgb list \<Rightarrow> string list \<Rightarrow> string" where
  "ExportToJSon_export palette_name palette_rgb palette_hex =
     ''{'' @ json_string ''name'' @ '': '' @ json_string palette_name
     @ '', '' @ json_string ''rgb'' @ '': '' @ json_list (map json_color palette_rgb)
     @ '', '' @ json_string ''hex'' @ '': '' @ json_list (map json_string palette_hex)
     @ ''}''"

text \<open>
  The parser that reads such a file back (it is not part of the program): JSON strings with all
  their escapes, JSON integers, lists, and an object with the keys \<open>name\<close>, \<open>rgb\<close> and \<open>hex\<close> in
  this order, white space allowed between the tokens. \<open>None\<close> is a text it does not accept.
\<close>

definition json_space :: "char \<Rightarrow> bool" where
  "json_space c = (c = CHR '' '' \<or> c = CHR 0x09 \<or> c = LF \<or> c = CR)"

definition skip_ws :: "string \<Rightarrow> string" where
  "skip_ws s = dropWhile json_space s"

definition json_unescape :: "char \<Rightarrow> char option" where
  "json_unescape e =
     (if e = DQ then Some DQ
      else if e = BS then Some BS
      else if e = CHR ''/'' then Some CHR ''/''
      else if e = CHR ''b'' then Some (CHR 0x08)
      else if e = CHR ''f'' then Some (CHR 0x0C)
      else if e = CHR ''n'' then Some LF
      else if e = CHR ''r'' then Some CR
      else if e = CHR ''t'' then Some (CHR 0x09)
      else None)"

definition hex4_value :: "char \<Rightarrow> char \<Rightarrow> char \<Rightarrow> char \<Rightarrow> nat option" where
  "hex4_value a b c d =
     (case (hex_value a, hex_value b, hex_value c, hex_value d) of
        (Some w, Some x, Some y, Some z) \<Rightarrow> Some (4096 * w + 256 * x + 16 * y + z)
      | _ \<Rightarrow> None)"

fun json_string_body :: "string \<Rightarrow> string \<Rightarrow> (string \<times> string) option" where
  "json_string_body acc [] = None"
| "json_string_body acc (c # cs) =
     (if c = DQ then Some (acc, cs)
      else if c = BS then
        (case cs of
           [] \<Rightarrow> None
         | e # cs' \<Rightarrow>
             if e = CHR ''u'' then
               (case cs' of
                  h3 # h2 # h1 # h0 # cs'' \<Rightarrow>
                    (case hex4_value h3 h2 h1 h0 of
                       None \<Rightarrow> None
                     | Some n \<Rightarrow> if n < 256 then json_string_body (acc @ [char_of n]) cs''
                                 else None)
                | _ \<Rightarrow> None)
             else (case json_unescape e of
                     None \<Rightarrow> None
                   | Some ch \<Rightarrow> json_string_body (acc @ [ch]) cs'))
      else if (of_char c :: nat) < 32 then None
      else json_string_body (acc @ [c]) cs)"

definition json_parse_string :: "string \<Rightarrow> (string \<times> string) option" where
  "json_parse_string s =
     (case s of [] \<Rightarrow> None | c # cs \<Rightarrow> if c = DQ then json_string_body [] cs else None)"

definition json_parse_int :: "string \<Rightarrow> (int \<times> string) option" where
  "json_parse_int s =
     (let (neg, t) = (case s of
                        [] \<Rightarrow> (False, s)
                      | c # r \<Rightarrow> if c = CHR ''-'' then (True, r) else (False, s));
          ds = takeWhile is_digit t;
          rest = dropWhile is_digit t
      in if ds = [] \<or> (1 < length ds \<and> hd ds = CHR ''0'') then None
         else if rest \<noteq> [] \<and> hd rest \<in> set ''.eE'' then None
         else Some (if neg then - int (digits_value ds) else int (digits_value ds), rest))"

fun json_parse_items ::
  "nat \<Rightarrow> (string \<Rightarrow> ('a \<times> string) option) \<Rightarrow> string \<Rightarrow> ('a list \<times> string) option" where
  "json_parse_items 0 p s = None"
| "json_parse_items (Suc k) p s =
     (case p s of
        None \<Rightarrow> None
      | Some (x, r) \<Rightarrow>
          (case skip_ws r of
             [] \<Rightarrow> None
           | d # r' \<Rightarrow>
               if d = CHR '']'' then Some ([x], r')
               else if d = CHR '','' then
                 (case json_parse_items k p (skip_ws r') of
                    None \<Rightarrow> None
                  | Some (xs, r'') \<Rightarrow> Some (x # xs, r''))
               else None))"

text \<open>Every item takes at least one character, so the length of the text is fuel enough.\<close>

definition json_parse_list ::
  "(string \<Rightarrow> ('a \<times> string) option) \<Rightarrow> string \<Rightarrow> ('a list \<times> string) option" where
  "json_parse_list p s =
     (case s of
        [] \<Rightarrow> None
      | c # r \<Rightarrow>
          if c \<noteq> CHR ''['' then None
          else (case skip_ws r of
                  [] \<Rightarrow> None
                | d # r' \<Rightarrow> if d = CHR '']'' then Some ([], r')
                            else json_parse_items (length r) p (skip_ws r)))"

definition json_parse_color :: "string \<Rightarrow> (rgb \<times> string) option" where
  "json_parse_color s =
     (case json_parse_list json_parse_int s of
        Some ([r, g, b], rest) \<Rightarrow> Some ((r, g, b), rest)
      | _ \<Rightarrow> None)"

definition expect :: "char \<Rightarrow> string \<Rightarrow> string option" where
  "expect c s = (case skip_ws s of [] \<Rightarrow> None | d # r \<Rightarrow> if d = c then Some r else None)"

definition expect_key :: "string \<Rightarrow> string \<Rightarrow> string option" where
  "expect_key k s =
     (case json_parse_string (skip_ws s) of
        None \<Rightarrow> None
      | Some (k', r) \<Rightarrow> if k' = k then Some r else None)"

definition json_decode :: "string \<Rightarrow> (string \<times> rgb list \<times> string list) option" where
  "json_decode s =
     do {
       r \<leftarrow> expect CHR ''{'' s;
       r \<leftarrow> expect_key ''name'' r;
       r \<leftarrow> expect CHR '':'' r;
       (name, r) \<leftarrow> json_parse_string (skip_ws r);
       r \<leftarrow> expect CHR '','' r;
       r \<leftarrow> expect_key ''rgb'' r;
       r \<leftarrow> expect CHR '':'' r;
       (colors, r) \<leftarrow> json_parse_list json_parse_color (skip_ws r);
       r \<leftarrow> expect CHR '','' r;
       r \<leftarrow> expect_key ''hex'' r;
       r \<leftarrow> expect CHR '':'' r;
       (hexes, r) \<leftarrow> json_parse_list json_parse_string (skip_ws r);
       r \<leftarrow> expect CHR ''}'' r;
       if skip_ws r = [] then Some (name, colors, hexes) else None
     }"

section \<open>Properties of the colour conversion\<close>

lemma nat_lt16_cases:
  "(n::nat) < 16 \<Longrightarrow> n \<in> set [0,1,2,3,4,5,6,7,8,9,10,11,12,13,14,15]"
  by (simp; arith)

lemma hex_digits_small: "n < 16 \<Longrightarrow> hex_digits n = [digit_char n]"
  by (simp add: hex_digits.simps)

lemma hex_digits_two: "16 \<le> n \<Longrightarrow> n < 256 \<Longrightarrow> hex_digits n = [digit_char (n div 16), digit_char (n mod 16)]"
  by (subst hex_digits.simps) (simp add: hex_digits_small less_mult_imp_div_less)

lemma digit_char_0: "digit_char 0 = CHR ''0''"
  by (simp add: digit_char_def)

lemma format_02x_u8:
  assumes "u8 x"
  shows "format_02x x = [digit_char (nat x div 16), digit_char (nat x mod 16)]"
proof (cases "nat x < 16")
  case True
  then show ?thesis using assms
    by (simp add: format_02x_def u8_def digit_char_0 hex_digits_small)
next
  case False
  then have "16 \<le> nat x" "nat x < 256" using assms by (auto simp: u8_def)
  then show ?thesis using assms
    by (simp add: format_02x_def u8_def hex_digits_two)
qed

lemma upper_digit_table:
  "list_all (\<lambda>d. upper_hex_digit (upper_char (digit_char d)) \<and>
                  hex_value (upper_char (digit_char d)) = Some d)
     [0,1,2,3,4,5,6,7,8,9,10,11,12,13,14,15]"
  by code_simp

lemma upper_digit_char:
  assumes "d < 16"
  shows "upper_hex_digit (upper_char (digit_char d))"
    and "hex_value (upper_char (digit_char d)) = Some d"
  using upper_digit_table nat_lt16_cases [OF assms] unfolding list_all_iff by blast+

lemma upper_hash: "upper_char CHR ''#'' = CHR ''#''"
  by code_simp

lemma upper_format_02x:
  assumes "u8 x"
  shows "list_all upper_hex_digit (py_upper (format_02x x))"
    and "\<exists>h l. py_upper (format_02x x) = [h, l] \<and> hex_pair h l = Some x"
proof -
  have d: "nat x div 16 < 16" "nat x mod 16 < 16"
    using assms by (auto simp: u8_def less_mult_imp_div_less)
  have x: "int (16 * (nat x div 16) + nat x mod 16) = x"
    using assms by (simp add: u8_def)
  show "list_all upper_hex_digit (py_upper (format_02x x))"
    using d by (simp add: format_02x_u8 [OF assms] py_upper_def upper_digit_char)
  show "\<exists>h l. py_upper (format_02x x) = [h, l] \<and> hex_pair h l = Some x"
    using d x by (simp add: format_02x_u8 [OF assms] py_upper_def upper_digit_char hex_pair_def)
qed

text \<open>
  Claim C7. For every RGB triple of 8-bit components, \<open>convert_rgb_to_hex\<close> returns seven
  characters: \<open>#\<close> followed by six upper-case, zero-padded hexadecimal digits; decoding the
  string gives the triple back.
\<close>

theorem convert_rgb_to_hex_roundtrip:
  assumes "u8 r" and "u8 g" and "u8 b"
  shows "length (convert_rgb_to_hex (r, g, b)) = 7
       \<and> hd (convert_rgb_to_hex (r, g, b)) = CHR ''#''
       \<and> list_all upper_hex_digit (tl (convert_rgb_to_hex (r, g, b)))
       \<and> decode_hex (convert_rgb_to_hex (r, g, b)) = Some (r, g, b)"
proof -
  obtain r1 r0 where r: "py_upper (format_02x r) = [r1, r0]" "hex_pair r1 r0 = Some r"
    using upper_format_02x(2) [OF assms(1)] by blast
  obtain g1 g0 where g: "py_upper (format_02x g) = [g1, g0]" "hex_pair g1 g0 = Some g"
    using upper_format_02x(2) [OF assms(2)] by blast
  obtain b1 b0 where b: "py_upper (format_02x b) = [b1, b0]" "hex_pair b1 b0 = Some b"
    using upper_format_02x(2) [OF assms(3)] by blast
  have eq: "convert_rgb_to_hex (r, g, b) = [CHR ''#'', r1, r0, g1, g0, b1, b0]"
    using r(1) g(1) b(1) by (simp add: py_upper_def upper_hash)
  have up: "list_all upper_hex_digit [r1, r0, g1, g0, b1, b0]"
    using upper_format_02x(1) [OF assms(1)] upper_format_02x(1) [OF assms(2)]
      upper_format_02x(1) [OF assms(3)] r(1) g(1) b(1) by simp
  show ?thesis
    unfolding eq using up r(2) g(2) b(2) by simp
qed

theorem convert_rgb_to_hex_roundtrip_witness:
  "u8 255 \<and> u8 0 \<and> u8 171
   \<and> convert_rgb_to_hex (255, 0, 171) = ''#FF00AB''
   \<and> length (convert_rgb_to_hex (255, 0, 171)) = 7
   \<and> hd (convert_rgb_to_hex (255, 0, 171)) = CHR ''#''
   \<and> list_all upper_hex_digit (tl (convert_rgb_to_hex (255, 0, 171)))
   \<and> decode_hex (convert_rgb_to_hex (255, 0, 171)) = Some (255, 0, 171)"
proof -
  have h: "u8 255" "u8 0" "u8 171" by (simp_all add: u8_def)
  have e: "convert_rgb_to_hex (255, 0, 171) = ''#FF00AB''" by code_simp
  show ?thesis
    using h e convert_rgb_to_hex_roundtrip [OF h] by simp
qed

section \<open>Properties of the file names and of the ACO export\<close>

lemma split_on_nonempty: "split_on c s \<noteq> []"
  by (induction s) (auto split: list.splits)

lemma hd_split_on: "hd (split_on c s) = takeWhile (\<lambda>x. x \<noteq> c) s"
  by (induction s) (auto split: list.splits simp: split_on_nonempty)

lemma basename_no_slash: "CHR ''/'' \<notin> set (basename p)"
  unfolding basename_def using set_takeWhileD by fastforce

lemma basename_suffix: "take (length p - length (basename p)) p @ basename p = p"
proof -
  have "rev p = takeWhile (\<lambda>c. c \<noteq> CHR ''/'') (rev p) @ dropWhile (\<lambda>c. c \<noteq> CHR ''/'') (rev p)"
    by simp
  then have "p = rev (dropWhile (\<lambda>c. c \<noteq> CHR ''/'') (rev p)) @ basename p"
    unfolding basename_def by (metis rev_append rev_rev_ident)
  then show ?thesis
    by (metis append_eq_conv_conj length_append add_diff_cancel_right')
qed

text \<open>
  Claim C9. The base name in the name of a rendered or exported file is the part of the image's
  basename before its first dot: \<open>a.b.png\<close> gives \<open>a_palette.png\<close> and \<open>a_palette.csv\<close>.
  \<open>save_palette\<close> and \<open>export\<close> derive it in the same way.
\<close>

theorem file_name_first_dot:
  "save_palette_path dir path =
     path_join dir (takeWhile (\<lambda>c. c \<noteq> CHR ''.'') (basename path) @ ''_palette.png'')
   \<and> export_names dir path ext =
       (takeWhile (\<lambda>c. c \<noteq> CHR ''.'') (basename path),
        takeWhile (\<lambda>c. c \<noteq> CHR ''.'') (basename path) @ ''_palette.'' @ ext,
        path_join dir
          (takeWhile (\<lambda>c. c \<noteq> CHR ''.'') (basename path) @ ''_palette.'' @ ext))
   \<and> CHR ''.'' \<notin> set (takeWhile (\<lambda>c. c \<noteq> CHR ''.'') (basename path))
   \<and> save_palette_path ''out'' ''/img/a.b.png'' = ''out/a_palette.png''
   \<and> export_names ''out'' ''/img/a.b.png'' ''csv'' = (''a'', ''a_palette.csv'', ''out/a_palette.csv'')"
proof -
  let ?base = "takeWhile (\<lambda>c. c \<noteq> CHR ''.'') (basename path)"
  have a: "save_palette_path dir path = path_join dir (?base @ ''_palette.png'')"
    by (simp add: save_palette_path_def get_image_info_def hd_split_on Let_def)
  have b: "export_names dir path ext =
       (?base, ?base @ ''_palette.'' @ ext,
        path_join dir (?base @ ''_palette.'' @ ext))"
    by (simp add: export_names_def get_image_info_def hd_split_on Let_def)
  have c: "CHR ''.'' \<notin> set ?base"
    using set_takeWhileD by fastforce
  have d: "save_palette_path ''out'' ''/img/a.b.png'' = ''out/a_palette.png''"
    by (simp add: save_palette_path_def get_image_info_def basename_def path_join_def)
  have e: "export_names ''out'' ''/img/a.b.png'' ''csv'' = (''a'', ''a_palette.csv'', ''out/a_palette.csv'')"
    by (simp add: export_names_def get_image_info_def basename_def path_join_def Let_def)
  show ?thesis
    using a b c d e by blast
qed

lemma uint_byte: "0 \<le> x \<Longrightarrow> x < 256 \<Longrightarrow> uint (word_of_int x :: byte) = x"
  by (simp add: uint_word_of_int)

lemma bytearray_block:
  "valid_rgb c \<Longrightarrow> bytearray (aco_block c) = Inr (map word_of_int (aco_block c))"
  by (cases c) (simp add: valid_rgb_def u8_def bytearray_def)

lemma aco_colors_valid:
  "list_all valid_rgb cs \<Longrightarrow>
     aco_colors cs f = (f @ concat (map (\<lambda>c. map word_of_int (aco_block c)) cs), None)"
proof (induction cs arbitrary: f)
  case Nil
  then show ?case by simp
next
  case (Cons c cs)
  obtain r g b where c: "c = (r, g, b)" by (cases c)
  have "bytearray [0, 0, r, r, g, g, b, b, 0, 0] = Inr (map word_of_int (aco_block c))"
    using Cons.prems bytearray_block [of c] by (simp add: c)
  then show ?case using Cons by (simp add: c)
qed

lemma length_aco_block: "length (aco_block c) = 10"
  by (cases c) simp

lemma length_blocks:
  "length (concat (map (\<lambda>c. map word_of_int (aco_block c) :: byte list) cs)) = 10 * length cs"
  by (induction cs) (simp_all add: length_aco_block)

lemma nth_block:
  "i < length cs \<Longrightarrow>
     take 10 (drop (10 * i) (concat (map (\<lambda>c. map word_of_int (aco_block c) :: byte list) cs)))
       = map word_of_int (aco_block (cs ! i))"
proof (induction cs arbitrary: i)
  case Nil
  then show ?case by simp
next
  case (Cons c cs)
  show ?case
  proof (cases i)
    case 0
    then show ?thesis by (simp add: length_aco_block)
  next
    case (Suc j)
    then have "j < length cs" using Cons.prems by simp
    then show ?thesis using Cons.IH [of j] Suc by (simp add: length_aco_block)
  qed
qed

lemma uint_block:
  "valid_rgb c \<Longrightarrow> map uint (map word_of_int (aco_block c) :: byte list) = aco_block c"
  by (cases c) (simp add: valid_rgb_def u8_def uint_byte)

lemma drop_header: "length h = n \<Longrightarrow> drop (n + k) (h @ xs) = drop k xs"
  by simp

text \<open>
  Claim C3, amended. For every list of N RGB triples with 8-bit components and N below
  65280 (= 256 * 255), the export ends normally and the stream has 4 + 10 * N bytes: 0, 1, then
  N div 255 and N mod 255, then for each colour in order the block 0, 0, R, R, G, G, B, B, 0, 0.
\<close>

theorem aco_export_layout:
  assumes valid: "list_all valid_rgb palette_rgb"
    and small: "length palette_rgb < 65280"
  shows "snd (ExportToACO_export palette_name palette_rgb palette_hex) = None
       \<and> length (fst (ExportToACO_export palette_name palette_rgb palette_hex))
           = 4 + 10 * length palette_rgb
       \<and> take 2 (fst (ExportToACO_export palette_name palette_rgb palette_hex)) = [0, 1]
       \<and> map uint (take 2 (drop 2 (fst (ExportToACO_export palette_name palette_rgb palette_hex))))
           = [int (length palette_rgb) div 255, int (length palette_rgb) mod 255]
       \<and> (\<forall>i < length palette_rgb.
            map uint (take 10 (drop (4 + 10 * i)
              (fst (ExportToACO_export palette_name palette_rgb palette_hex))))
              = aco_block (palette_rgb ! i))"
proof -
  let ?n = "int (length palette_rgb)"
  let ?blocks = "concat (map (\<lambda>c. map word_of_int (aco_block c) :: byte list) palette_rgb)"
  have n1: "0 \<le> ?n div 255" "?n div 255 < 256" using small by auto
  have n2: "0 \<le> ?n mod 255" "?n mod 255 < 256" by auto
  have cnt: "bytearray [?n div 255, ?n mod 255]
               = Inr [word_of_int (?n div 255), word_of_int (?n mod 255)]"
    using n1 n2 by (simp add: bytearray_def)
  have ver: "bytearray [0, 1] = Inr [0, 1]"
    by (simp add: bytearray_def)
  have E: "ExportToACO_export palette_name palette_rgb palette_hex
             = ([0, 1, word_of_int (?n div 255), word_of_int (?n mod 255)] @ ?blocks, None)"
    by (simp add: ExportToACO_export_def Let_def ver cnt aco_colors_valid [OF valid])
  have blk: "\<forall>i < length palette_rgb.
      map uint (take 10 (drop (4 + 10 * i)
        ([0, 1, word_of_int (?n div 255), word_of_int (?n mod 255)] @ ?blocks)))
        = aco_block (palette_rgb ! i)"
  proof (intro allI impI)
    fix i assume i: "i < length palette_rgb"
    then have v: "valid_rgb (palette_rgb ! i)"
      using valid by (simp add: list_all_length)
    have "take 10 (drop (4 + 10 * i)
        ([0, 1, word_of_int (?n div 255), word_of_int (?n mod 255)] @ ?blocks))
        = take 10 (drop (10 * i) ?blocks)"
      using drop_header [of "[0, 1, word_of_int (?n div 255), word_of_int (?n mod 255)]" 4 "10 * i" ?blocks]
      by simp
    then show "map uint (take 10 (drop (4 + 10 * i)
        ([0, 1, word_of_int (?n div 255), word_of_int (?n mod 255)] @ ?blocks)))
        = aco_block (palette_rgb ! i)"
      using nth_block [OF i] uint_block [OF v] by simp
  qed
  show ?thesis
    unfolding E using blk n1 n2 by (simp add: length_blocks uint_byte)
qed

theorem aco_export_layout_witness:
  "list_all valid_rgb [(255, 0, 171), (1, 2, 3)] \<and> length [(255, 0, 171), (1, 2, 3) :: rgb] < 65280
   \<and> snd (ExportToACO_export ''p'' [(255, 0, 171), (1, 2, 3)] [''#FF00AB'', ''#010203'']) = None
   \<and> length (fst (ExportToACO_export ''p'' [(255, 0, 171), (1, 2, 3)] [''#FF00AB'', ''#010203'']))
       = 24
   \<and> map uint (take 10 (drop 14
        (fst (ExportToACO_export ''p'' [(255, 0, 171), (1, 2, 3)] [''#FF00AB'', ''#010203'']))))
       = [0, 0, 1, 1, 2, 2, 3, 3, 0, 0]"
proof -
  have v: "list_all valid_rgb [(255, 0, 171), (1, 2, 3)]"
    by (simp add: valid_rgb_def u8_def)
  have s: "length [(255, 0, 171), (1, 2, 3) :: rgb] < 65280"
    by simp
  note t = aco_export_layout [OF v s, of "''p''" "[''#FF00AB'', ''#010203'']"]
  have n: "snd (ExportToACO_export ''p'' [(255, 0, 171), (1, 2, 3)] [''#FF00AB'', ''#010203'']) = None"
    using t by blast
  have l: "length (fst (ExportToACO_export ''p'' [(255, 0, 171), (1, 2, 3)] [''#FF00AB'', ''#010203'']))
       = 24"
    using t by simp
  have "\<forall>i < length [(255, 0, 171), (1, 2, 3) :: rgb].
          map uint (take 10 (drop (4 + 10 * i)
            (fst (ExportToACO_export ''p'' [(255, 0, 171), (1, 2, 3)] [''#FF00AB'', ''#010203'']))))
          = aco_block ([(255, 0, 171), (1, 2, 3)] ! i)"
    using t by blast
  from this [rule_format, of 1]
  have b: "map uint (take 10 (drop 14
        (fst (ExportToACO_export ''p'' [(255, 0, 171), (1, 2, 3)] [''#FF00AB'', ''#010203'']))))
       = [0, 0, 1, 1, 2, 2, 3, 3, 0, 0]"
    by simp
  show ?thesis
    using v s n l b by blast
qed

text \<open>
  With 65280 colours the count byte \<open>nb div 255\<close> is 256: \<open>bytearray\<close> raises \<open>ValueError\<close>
  after the two version bytes have been written.
\<close>

theorem aco_export_count_overflow:
  "fst (ExportToACO_export ''p'' (replicate 65280 (0, 0, 0)) (replicate 65280 ''#000000'')) = [0, 1]
   \<and> snd (ExportToACO_export ''p'' (replicate 65280 (0, 0, 0)) (replicate 65280 ''#000000''))
       = Some ValueError"
  by (simp add: ExportToACO_export_def bytearray_def)

text \<open>
  Claim C10. Two calls of the ACO exporter with the same RGB list write the same stream, whatever
  the palette names and the hex lists.
\<close>

theorem aco_export_depends_on_rgb_only:
  "ExportToACO_export name1 palette_rgb hex1 = ExportToACO_export name2 palette_rgb hex2"
  by (simp add: ExportToACO_export_def)

section \<open>Properties of the swatch image\<close>

lemma py_ceil_div_real:
  "b \<noteq> 0 \<Longrightarrow> py_ceil_div a b = Inr \<lceil>(of_int a :: real) / of_int b\<rceil>"
  by (simp add: py_ceil_div_def ceiling_divide_eq_div)

lemma create_palette_image_Inr:
  assumes "create_palette_image cfg p p_rgb = Inr img"
  shows "columns cfg \<noteq> 0"
    and "image_width img = columns cfg * square_x cfg"
    and "image_height img = \<lceil>(of_int (int (length p)) :: real) / of_int (columns cfg)\<rceil> * square_y cfg"
    and "swatches img = map (\<lambda>(i, (color, c)). draw_swatch cfg i c) (enumerate 0 (zip p p_rgb))"
proof -
  show c: "columns cfg \<noteq> 0"
    using assms by (auto simp: create_palette_image_def py_ceil_div_def split: if_splits)
  note d = py_ceil_div_real [OF c, of "int (length p)"]
  show "image_width img = columns cfg * square_x cfg"
    using assms unfolding create_palette_image_def d
    by (auto simp: Image_new_def split: if_splits)
  show "image_height img = \<lceil>(of_int (int (length p)) :: real) / of_int (columns cfg)\<rceil> * square_y cfg"
    using assms unfolding create_palette_image_def d
    by (auto simp: Image_new_def split: if_splits)
  show "swatches img = map (\<lambda>(i, (color, c)). draw_swatch cfg i c) (enumerate 0 (zip p p_rgb))"
    using assms unfolding create_palette_image_def d
    by (auto simp: Image_new_def split: if_splits)
qed

lemma create_palette_image_succeeds:
  assumes "0 < columns cfg" and "0 \<le> square_x cfg" and "0 \<le> square_y cfg"
  shows "\<exists>img. create_palette_image cfg p p_rgb = Inr img"
proof -
  have "0 \<le> - ((- int (length p)) div columns cfg)"
    using assms(1) div_nonpos_pos_le0 [of "- int (length p)" "columns cfg"] by simp
  then have "0 \<le> - ((- int (length p)) div columns cfg) * square_y cfg"
    using assms(3) by (rule mult_nonneg_nonneg)
  moreover have "0 \<le> columns cfg * square_x cfg"
    using assms by simp
  ultimately show ?thesis
    using assms(1) by (simp add: create_palette_image_def py_ceil_div_def Image_new_def)
qed

lemma box_draw_swatch:
  "fst (box (draw_swatch cfg i c)) = (int i mod columns cfg) * square_x cfg"
  "fst (snd (box (draw_swatch cfg i c))) = (int i div columns cfg) * square_y cfg"
  by (simp_all add: draw_swatch_def Let_def)

text \<open>
  Claim C8. With \<open>c\<close> columns (\<open>c > 0\<close>) and squares of \<open>w\<close> by \<open>h\<close> (not negative) the image is
  created; whenever it is created, for a palette of N colours its width is \<open>c * w\<close>, its height
  is \<open>ceil(N / c) * h\<close>, and the swatch of index \<open>i\<close> (from 0) has its top-left corner at
  \<open>((i mod c) * w, (i div c) * h)\<close>.
\<close>

theorem swatch_layout:
  "(0 < columns cfg \<and> 0 \<le> square_x cfg \<and> 0 \<le> square_y cfg \<longrightarrow>
      (\<exists>img. create_palette_image cfg p (palette_to_rgb p) = Inr img))
   \<and> (\<forall>img. create_palette_image cfg p (palette_to_rgb p) = Inr img \<longrightarrow>
         image_width img = columns cfg * square_x cfg
       \<and> image_height img
           = \<lceil>(of_int (int (length p)) :: real) / of_int (columns cfg)\<rceil> * square_y cfg
       \<and> length (swatches img) = length p
       \<and> (\<forall>i < length p.
             fst (box (swatches img ! i)) = (int i mod columns cfg) * square_x cfg
           \<and> fst (snd (box (swatches img ! i))) = (int i div columns cfg) * square_y cfg))"
proof (intro conjI allI impI)
  assume "0 < columns cfg \<and> 0 \<le> square_x cfg \<and> 0 \<le> square_y cfg"
  then show "\<exists>img. create_palette_image cfg p (palette_to_rgb p) = Inr img"
    using create_palette_image_succeeds by blast
next
  fix img assume r: "create_palette_image cfg p (palette_to_rgb p) = Inr img"
  show "image_width img = columns cfg * square_x cfg"
    by (rule create_palette_image_Inr(2) [OF r])
  show "image_height img
           = \<lceil>(of_int (int (length p)) :: real) / of_int (columns cfg)\<rceil> * square_y cfg"
    by (rule create_palette_image_Inr(3) [OF r])
  note s = create_palette_image_Inr(4) [OF r]
  show len: "length (swatches img) = length p"
    by (simp add: s palette_to_rgb_def)
  fix i assume i: "i < length p"
  then have "swatches img ! i = draw_swatch cfg i (rgb (p ! i))"
    by (simp add: s palette_to_rgb_def nth_enumerate_eq)
  then show "fst (box (swatches img ! i)) = (int i mod columns cfg) * square_x cfg"
    and "fst (snd (box (swatches img ! i))) = (int i div columns cfg) * square_y cfg"
    by (simp_all add: box_draw_swatch)
qed

theorem swatch_layout_witness:
  "0 < columns (default_config ''/app'') \<and> 0 \<le> square_x (default_config ''/app'')
   \<and> 0 \<le> square_y (default_config ''/app'')
   \<and> (\<exists>img. create_palette_image (default_config ''/app'')
          (map (\<lambda>c. \<lparr>rgb = c\<rparr>) [(255, 255, 255), (0, 0, 0), (255, 0, 0), (0, 255, 0)])
          (palette_to_rgb (map (\<lambda>c. \<lparr>rgb = c\<rparr>) [(255, 255, 255), (0, 0, 0), (255, 0, 0), (0, 255, 0)]))
          = Inr img
        \<and> image_width img = 300 \<and> image_height img = 200
        \<and> box (swatches img ! 3) = (0, 100, 100, 200))"
proof -
  let ?cfg = "default_config ''/app''"
  let ?p = "map (\<lambda>c. \<lparr>rgb = c\<rparr>) [(255, 255, 255), (0, 0, 0), (255, 0, 0), (0, 255, 0)] :: palette"
  have h: "0 < columns ?cfg \<and> 0 \<le> square_x ?cfg \<and> 0 \<le> square_y ?cfg"
    by (simp add: default_config_def)
  note t = swatch_layout [of ?cfg ?p]
  from t h obtain img where r: "create_palette_image ?cfg ?p (palette_to_rgb ?p) = Inr img"
    by blast
  from t r have w: "image_width img = columns ?cfg * square_x ?cfg"
    and hh: "image_height img = \<lceil>(of_int (int (length ?p)) :: real) / of_int (columns ?cfg)\<rceil> * square_y ?cfg"
    by blast+
  have w': "image_width img = 300" using w by (simp add: default_config_def)
  have h': "image_height img = 200" using hh by (simp add: default_config_def)
  have b: "box (swatches img ! 3) = (0, 100, 100, 200)"
    using r by (auto simp: create_palette_image_def py_ceil_div_def Image_new_def default_config_def
        palette_to_rgb_def draw_swatch_def Let_def enumerate_eq_zip split: if_splits)
  show ?thesis using h r w' h' b by blast
qed

section \<open>Properties of the batch extraction\<close>

lemma extraction_loop_all:
  assumes "\<forall>path \<in> set images. extraction_ok ev cfg path \<and> \<not> render_interrupted ev cfg path"
  shows "extraction_loop ev cfg images (pl, printed)
           = Inr (pl\<lparr>palettes := palettes pl @ List.map_filter (processed ev cfg) images\<rparr>,
                  printed @ List.map_filter (render_error ev cfg) images)"
  using assms
proof (induction images arbitrary: pl printed)
  case Nil
  then show ?case by simp
next
  case (Cons path images)
  from Cons.prems obtain p p_rgb where g: "get_palette ev cfg path = Inr (p, p_rgb)"
    by (auto simp: extraction_ok_def split: sum.splits)
  have rest: "\<forall>q \<in> set images. extraction_ok ev cfg q \<and> \<not> render_interrupted ev cfg q"
    using Cons.prems by simp
  show ?case
  proof (cases "save_palette ev cfg p p_rgb path")
    case (Inr file_path)
    then show ?thesis
      using g Cons.IH [OF rest] by (simp add: processed_def render_error_def)
  next
    case (Inl e)
    then have "is_Exception e"
      using Cons.prems g by (simp add: render_interrupted_def is_Exception_def)
    then show ?thesis
      using g Inl Cons.IH [OF rest] by (simp add: processed_def render_error_def)
  qed
qed

lemma extraction_loop_abort:
  assumes "\<forall>q \<in> set pre. extraction_ok ev cfg q \<and> \<not> render_interrupted ev cfg q"
    and "get_palette ev cfg path = Inl e"
  shows "extraction_loop ev cfg (pre @ path # post) (pl, printed) = Inl e"
  using assms
proof (induction pre arbitrary: pl printed)
  case Nil
  then show ?case by simp
next
  case (Cons q pre)
  from Cons.prems obtain p p_rgb where g: "get_palette ev cfg q = Inr (p, p_rgb)"
    by (auto simp: extraction_ok_def split: sum.splits)
  have rest: "\<forall>q \<in> set pre. extraction_ok ev cfg q \<and> \<not> render_interrupted ev cfg q"
    using Cons.prems by simp
  show ?case
  proof (cases "save_palette ev cfg p p_rgb q")
    case (Inr file_path)
    then show ?thesis
      using g Cons.IH [OF rest Cons.prems(2)] by simp
  next
    case (Inl e')
    then have "is_Exception e'"
      using Cons.prems g by (simp add: render_interrupted_def is_Exception_def)
    then show ?thesis
      using g Inl Cons.IH [OF rest Cons.prems(2)] by simp
  qed
qed

text \<open>
  The loop as it is written. If the extraction succeeds for every path of the batch, a path
  whose rendering fails with an \<open>Exception\<close> is skipped: the exception is printed, no record is
  added and the remaining paths are processed; the collection then holds one record per
  successfully processed path, in input order. An exception of the extraction itself is not
  caught: it ends the batch at the first path that raises it.
\<close>

theorem batch_extraction:
  "((\<forall>path \<in> set images. extraction_ok ev cfg path \<and> \<not> render_interrupted ev cfg path) \<longrightarrow>
      extract_images ev cfg pl images
        = Inr (pl\<lparr>palettes := List.map_filter (processed ev cfg) images\<rparr>,
               List.map_filter (render_error ev cfg) images))
   \<and> ((\<forall>path \<in> set pre. extraction_ok ev cfg path \<and> \<not> render_interrupted ev cfg path)
        \<and> get_palette ev cfg failing = Inl e \<longrightarrow>
      extract_images ev cfg pl (pre @ failing # post) = Inl e)"
  by (simp add: extract_images_def extraction_loop_all extraction_loop_abort)

theorem batch_extraction_witness:
  "list_all (\<lambda>path. extraction_ok example_env (default_config ''/app'') path
               \<and> \<not> render_interrupted example_env (default_config ''/app'') path)
     [''a.png'', ''c.png'', ''d.png'']
   \<and> extract_images example_env (default_config ''/app'') \<lparr>palettes = []\<rparr>
         [''a.png'', ''c.png'', ''d.png'']
       = Inr (\<lparr>palettes =
                 [\<lparr>palette = [\<lparr>rgb = (255, 0, 171)\<rparr>], image_path = ''a.png'',
                   palette_path = ''/app/output/a_palette.png''\<rparr>,
                  \<lparr>palette = [\<lparr>rgb = (255, 0, 171)\<rparr>], image_path = ''d.png'',
                   palette_path = ''/app/output/d_palette.png''\<rparr>]\<rparr>,
              [OtherException ''disk''])
   \<and> get_palette example_env (default_config ''/app'') ''b.png''
       = Inl (OtherException ''unreadable'')
   \<and> extract_images example_env (default_config ''/app'') \<lparr>palettes = []\<rparr>
         ([''a.png''] @ ''b.png'' # [''d.png''])
       = Inl (OtherException ''unreadable'')"
proof -
  let ?cfg = "default_config ''/app''"
  have h: "list_all (\<lambda>path. extraction_ok example_env ?cfg path
               \<and> \<not> render_interrupted example_env ?cfg path) [''a.png'', ''c.png'', ''d.png'']"
    by code_simp
  then have h1: "\<forall>path \<in> set [''a.png'', ''c.png'', ''d.png''].
      extraction_ok example_env ?cfg path \<and> \<not> render_interrupted example_env ?cfg path"
    and h2: "\<forall>path \<in> set [''a.png''].
      extraction_ok example_env ?cfg path \<and> \<not> render_interrupted example_env ?cfg path"
    by (simp_all add: list_all_iff)
  have g: "get_palette example_env ?cfg ''b.png'' = Inl (OtherException ''unreadable'')"
    by code_simp
  have m: "List.map_filter (processed example_env ?cfg) [''a.png'', ''c.png'', ''d.png'']
      = [\<lparr>palette = [\<lparr>rgb = (255, 0, 171)\<rparr>], image_path = ''a.png'',
          palette_path = ''/app/output/a_palette.png''\<rparr>,
         \<lparr>palette = [\<lparr>rgb = (255, 0, 171)\<rparr>], image_path = ''d.png'',
          palette_path = ''/app/output/d_palette.png''\<rparr>]"
    by code_simp
  have p: "List.map_filter (render_error example_env ?cfg) [''a.png'', ''c.png'', ''d.png'']
      = [OtherException ''disk'']"
    by code_simp
  have e1: "extract_images example_env ?cfg \<lparr>palettes = []\<rparr> [''a.png'', ''c.png'', ''d.png'']
      = Inr (\<lparr>palettes = []\<rparr>\<lparr>palettes :=
               List.map_filter (processed example_env ?cfg) [''a.png'', ''c.png'', ''d.png'']\<rparr>,
             List.map_filter (render_error example_env ?cfg) [''a.png'', ''c.png'', ''d.png''])"
    using batch_extraction [of "[''a.png'', ''c.png'', ''d.png'']" example_env ?cfg] h1 by blast
  have e2: "extract_images example_env ?cfg \<lparr>palettes = []\<rparr> ([''a.png''] @ ''b.png'' # [''d.png''])
      = Inl (OtherException ''unreadable'')"
    using batch_extraction [of _ example_env ?cfg _ "[''a.png'']" "''b.png''"] h2 g by blast
  have e1': "extract_images example_env ?cfg \<lparr>palettes = []\<rparr> [''a.png'', ''c.png'', ''d.png'']
      = Inr (\<lparr>palettes =
                 [\<lparr>palette = [\<lparr>rgb = (255, 0, 171)\<rparr>], image_path = ''a.png'',
                   palette_path = ''/app/output/a_palette.png''\<rparr>,
                  \<lparr>palette = [\<lparr>rgb = (255, 0, 171)\<rparr>], image_path = ''d.png'',
                   palette_path = ''/app/output/d_palette.png''\<rparr>]\<rparr>,
              [OtherException ''disk''])"
    unfolding e1 m p by simp
  show ?thesis
    using h g e1' e2 by blast
qed

text \<open>
  Claim C2 says that a path whose extraction or rendering fails is skipped and printed, gives no
  record and does not end the batch, so that the collection holds one record per successfully
  processed path, in input order. The loop does this for a rendering that fails, as
  \<open>batch_extraction\<close> shows, and not for an extraction that fails: here the extraction of
  \<open>b.png\<close> raises, and the batch ends with that exception although \<open>a.png\<close> and \<open>d.png\<close> can
  both be processed.
\<close>

theorem batch_extraction_aborts:
  "get_palette example_env (default_config ''/app'') ''b.png'' = Inl (OtherException ''unreadable'')
   \<and> extract_images example_env (default_config ''/app'') \<lparr>palettes = []\<rparr>
         [''a.png'', ''b.png'', ''d.png'']
       = Inl (OtherException ''unreadable'')
   \<and> List.map_filter (processed example_env (default_config ''/app''))
         [''a.png'', ''b.png'', ''d.png'']
       = [\<lparr>palette = [\<lparr>rgb = (255, 0, 171)\<rparr>], image_path = ''a.png'',
           palette_path = ''/app/output/a_palette.png''\<rparr>,
          \<lparr>palette = [\<lparr>rgb = (255, 0, 171)\<rparr>], image_path = ''d.png'',
           palette_path = ''/app/output/d_palette.png''\<rparr>]"
  by code_simp


section \<open>Properties of the index resolution\<close>

lemma digit_char_dec:
  assumes "d < 10"
  shows "is_digit (digit_char d)" and "of_char (digit_char d) - 48 = d" and "digit_char d \<noteq> CHR ''_''"
proof -
  have "list_all (\<lambda>d. is_digit (digit_char d) \<and> of_char (digit_char d) - 48 = d \<and> digit_char d \<noteq> CHR ''_'')
          [0,1,2,3,4,5,6,7,8,9]"
    by code_simp
  moreover have "d \<in> set [0,1,2,3,4,5,6,7,8,9]"
    using assms by (simp; arith)
  ultimately show "is_digit (digit_char d)" and "of_char (digit_char d) - 48 = d" and "digit_char d \<noteq> CHR ''_''"
    unfolding list_all_iff by blast+
qed

lemma dec_digits_digits: "list_all is_digit (dec_digits n) \<and> dec_digits n \<noteq> []"
proof (induction n rule: dec_digits.induct)
  case (1 n)
  show ?case
  proof (cases "n < 10")
    case True
    then show ?thesis by (subst dec_digits.simps, subst dec_digits.simps) (simp add: digit_char_dec)
  next
    case False
    then show ?thesis using 1
      by (subst dec_digits.simps, subst dec_digits.simps) (simp add: digit_char_dec)
  qed
qed

lemma is_digit_not_underscore: "is_digit c \<Longrightarrow> c \<noteq> CHR ''_''"
  by (auto simp: is_digit_def Let_def)

lemma digit_group_all: "ds \<noteq> [] \<Longrightarrow> list_all is_digit ds \<Longrightarrow> digit_group ds"
  by (induction ds rule: digit_group.induct) (auto simp: is_digit_not_underscore)

lemma digits_value_snoc:
  "c \<noteq> CHR ''_'' \<Longrightarrow> digits_value (ds @ [c]) = 10 * digits_value ds + (of_char c - 48)"
  by (simp add: digits_value_def)

lemma digits_value_dec: "digits_value (dec_digits n) = n"
proof (induction n rule: dec_digits.induct)
  case (1 n)
  show ?case
  proof (cases "n < 10")
    case True
    then show ?thesis
      by (subst dec_digits.simps) (simp add: digits_value_def digit_char_dec)
  next
    case False
    then show ?thesis using 1
      by (subst dec_digits.simps) (simp add: digits_value_snoc digit_char_dec)
  qed
qed

lemma is_digit_not_space: "is_digit c \<Longrightarrow> \<not> int_space c \<and> c \<noteq> CHR ''+'' \<and> c \<noteq> CHR ''-''"
  by (auto simp: is_digit_def int_space_def Let_def)

lemma py_int_digits:
  assumes "ds \<noteq> []" and "list_all is_digit ds"
  shows "py_int ds = Some (int (digits_value ds))"
    and "py_int (CHR ''-'' # ds) = Some (- int (digits_value ds))"
proof -
  obtain c r where ds: "ds = c # r" using assms(1) by (cases ds) auto
  have c: "\<not> int_space c" "c \<noteq> CHR ''+''" "c \<noteq> CHR ''-''"
    using assms(2) is_digit_not_space [of c] by (simp_all add: ds)
  have all: "\<forall>x \<in> set ds. is_digit x \<or> x = CHR ''_''"
    using assms(2) by (simp add: list_all_iff)
  have tw: "takeWhile (\<lambda>c. is_digit c \<or> c = CHR ''_'') ds = ds"
    and dw: "dropWhile (\<lambda>c. is_digit c \<or> c = CHR ''_'') ds = []"
    using all by simp_all
  have g: "digit_group ds" using assms by (rule digit_group_all)
  have d: "dropWhile int_space ds = ds" using c by (simp add: ds)
  show "py_int ds = Some (int (digits_value ds))"
  proof -
    have "py_int (c # r) =
        (if digit_group (takeWhile (\<lambda>c. is_digit c \<or> c = CHR ''_'') (c # r))
            \<and> list_all int_space (dropWhile (\<lambda>c. is_digit c \<or> c = CHR ''_'') (c # r))
         then Some (int (digits_value (takeWhile (\<lambda>c. is_digit c \<or> c = CHR ''_'') (c # r))))
         else None)"
      using c by (simp add: py_int_def Let_def d [unfolded ds] del: takeWhile.simps dropWhile.simps)
    then show ?thesis
      using g unfolding tw [unfolded ds] dw [unfolded ds] by (simp add: ds)
  qed
  have m: "\<not> int_space CHR ''-''" by (simp add: int_space_def)
  show "py_int (CHR ''-'' # ds) = Some (- int (digits_value ds))"
    unfolding py_int_def using m g by (simp add: tw dw Let_def)
qed

lemma py_int_py_str: "py_int (py_str i) = Some i"
  using py_int_digits [of "dec_digits (nat i)"] py_int_digits [of "dec_digits (nat (- i))"]
    dec_digits_digits digits_value_dec
  by (simp add: py_str_def)


lemma digits_not_option:
  assumes "ds \<noteq> []" and "list_all is_digit ds"
  shows "\<not> startswith ds ''-''" and "\<not> startswith ds ''--''" and "ds \<noteq> ''all''" and "ds \<noteq> ''ALL''"
proof -
  obtain c r where ds: "ds = c # r" using assms(1) by (cases ds) auto
  have c: "is_digit c" using assms(2) by (simp add: ds)
  have "\<not> is_digit CHR ''-''" "\<not> is_digit CHR ''a''" "\<not> is_digit CHR ''A''"
    by (simp_all add: is_digit_def)
  then have "c \<noteq> CHR ''-''" "c \<noteq> CHR ''a''" "c \<noteq> CHR ''A''"
    using c by auto
  then show "\<not> startswith ds ''-''" and "\<not> startswith ds ''--''" and "ds \<noteq> ''all''" and "ds \<noteq> ''ALL''"
    by (auto simp: ds startswith_def)
qed

lemma py_str_nonneg_not_option:
  assumes "0 \<le> i"
  shows "\<not> startswith (py_str i) ''-''" and "\<not> startswith (py_str i) ''--''"
    and "py_str i \<noteq> ''all''" and "py_str i \<noteq> ''ALL''"
  using assms digits_not_option [of "dec_digits (nat i)"] dec_digits_digits [of "nat i"]
  by (simp_all add: py_str_def)

lemma get_indice_omitted:
  "length (split_on CHR '' '' (py_strip line)) \<le> 1 \<Longrightarrow>
     get_indice_from_option line pl al
       = (if 1 \<le> int (length (palettes pl)) then Some 1 else None)"
  by (cases "palettes pl") (auto simp: get_indice_from_option_def Let_def)

lemma get_indice_token:
  assumes "split_on CHR '' '' (py_strip line) = cmd # tok # rest"
  shows "get_indice_from_option line pl al =
     (if startswith tok ''-'' \<or> startswith tok ''--''
      then (if 1 \<le> int (length (palettes pl)) then Some 1 else None)
      else if al \<and> (tok = ''all'' \<or> tok = ''ALL'') then Some (- 1)
      else (case py_int tok of
              None \<Rightarrow> None
            | Some i \<Rightarrow> if 1 \<le> i \<and> i \<le> int (length (palettes pl)) then Some i else None))"
  by (cases "palettes pl") (auto simp: get_indice_from_option_def Let_def assms split: option.splits)

lemma startswith_dashes: "startswith tok ''--'' \<Longrightarrow> startswith tok ''-''"
  by (cases tok) (auto simp: startswith_def)

text \<open>
  Claim C1, amended. The token is the second field of the stripped command, split at single
  spaces. With \<open>all=True\<close> the tokens \<open>all\<close> and \<open>ALL\<close>, in exactly these two spellings, give
  the wildcard \<open>-1\<close>. A token that starts with \<open>-\<close> is an option, and an omitted token is no
  token: both give the default index 1, which is valid when the collection is not empty. Every
  other token is valid when \<open>int\<close> reads it as a number from 1 to the number of records, which
  it then returns (so does the decimal string of such a number), and invalid otherwise: \<open>0\<close>,
  the string of n + 1, and a token that is not a number.
\<close>

theorem index_resolution:
  "(length (split_on CHR '' '' (py_strip line)) \<le> 1 \<longrightarrow>
      get_indice_from_option line pl al
        = (if 1 \<le> int (length (palettes pl)) then Some 1 else None))
   \<and> (\<forall>cmd tok rest. split_on CHR '' '' (py_strip line) = cmd # tok # rest \<longrightarrow>
        (startswith tok ''-'' \<longrightarrow>
           get_indice_from_option line pl al
             = (if 1 \<le> int (length (palettes pl)) then Some 1 else None))
      \<and> (al \<and> (tok = ''all'' \<or> tok = ''ALL'') \<longrightarrow>
           get_indice_from_option line pl al = Some (- 1))
      \<and> (\<not> startswith tok ''-'' \<and> \<not> (al \<and> (tok = ''all'' \<or> tok = ''ALL'')) \<longrightarrow>
           get_indice_from_option line pl al
             = (case py_int tok of
                  None \<Rightarrow> None
                | Some i \<Rightarrow> if 1 \<le> i \<and> i \<le> int (length (palettes pl)) then Some i else None))
      \<and> (\<forall>i. tok = py_str i \<and> 1 \<le> i \<and> i \<le> int (length (palettes pl)) \<longrightarrow>
           get_indice_from_option line pl al = Some i)
      \<and> (\<forall>i. tok = py_str i \<and> (i = 0 \<or> int (length (palettes pl)) < i) \<longrightarrow>
           get_indice_from_option line pl al = None))"
proof (intro conjI allI impI)
  assume "length (split_on CHR '' '' (py_strip line)) \<le> 1"
  then show "get_indice_from_option line pl al
        = (if 1 \<le> int (length (palettes pl)) then Some 1 else None)"
    by (rule get_indice_omitted)
next
  fix cmd tok rest
  assume s: "split_on CHR '' '' (py_strip line) = cmd # tok # rest"
  note g = get_indice_token [OF s, of pl al]
  {
    assume "startswith tok ''-''"
    then show "get_indice_from_option line pl al
             = (if 1 \<le> int (length (palettes pl)) then Some 1 else None)"
      unfolding g by simp
  next
    assume a: "al \<and> (tok = ''all'' \<or> tok = ''ALL'')"
    then have "\<not> startswith tok ''-''" "\<not> startswith tok ''--''"
      by (auto simp: startswith_def)
    then show "get_indice_from_option line pl al = Some (- 1)"
      using a unfolding g by simp
  next
    assume "\<not> startswith tok ''-'' \<and> \<not> (al \<and> (tok = ''all'' \<or> tok = ''ALL''))"
    then show "get_indice_from_option line pl al
             = (case py_int tok of
                  None \<Rightarrow> None
                | Some i \<Rightarrow> if 1 \<le> i \<and> i \<le> int (length (palettes pl)) then Some i else None)"
      using startswith_dashes [of tok] unfolding g by auto
  next
    fix i assume "tok = py_str i \<and> 1 \<le> i \<and> i \<le> int (length (palettes pl))"
    then show "get_indice_from_option line pl al = Some i"
      using py_str_nonneg_not_option [of i] unfolding g by (simp add: py_int_py_str)
  next
    fix i assume "tok = py_str i \<and> (i = 0 \<or> int (length (palettes pl)) < i)"
    then show "get_indice_from_option line pl al = None"
      using py_str_nonneg_not_option [of i] unfolding g by (auto simp: py_int_py_str)
  }
qed

theorem index_resolution_witness:
  "split_on CHR '' '' (py_strip ''/csv 3'') = [''/csv'', ''3''] \<and> ''3'' = py_str 3
   \<and> get_indice_from_option ''/csv 3'' five_palettes True = Some 3
   \<and> get_indice_from_option ''/csv ALL'' five_palettes True = Some (- 1)
   \<and> get_indice_from_option ''/csv all'' five_palettes True = Some (- 1)
   \<and> get_indice_from_option ''/csv 6'' five_palettes True = None
   \<and> get_indice_from_option ''/csv 0'' five_palettes True = None
   \<and> get_indice_from_option ''/s -d'' five_palettes False = Some 1
   \<and> get_indice_from_option ''/csv'' five_palettes True = Some 1"
proof -
  have n: "int (length (palettes five_palettes)) = 5"
    by (simp add: five_palettes_def)
  have s3: "split_on CHR '' '' (py_strip ''/csv 3'') = [''/csv'', ''3'']" by code_simp
  have p3: "''3'' = py_str 3" by code_simp
  have sA: "split_on CHR '' '' (py_strip ''/csv ALL'') = [''/csv'', ''ALL'']" by code_simp
  have sa: "split_on CHR '' '' (py_strip ''/csv all'') = [''/csv'', ''all'']" by code_simp
  have s6: "split_on CHR '' '' (py_strip ''/csv 6'') = [''/csv'', ''6'']" by code_simp
  have p6: "''6'' = py_str 6" by code_simp
  have s0: "split_on CHR '' '' (py_strip ''/csv 0'') = [''/csv'', ''0'']" by code_simp
  have p0: "''0'' = py_str 0" by code_simp
  have sd: "split_on CHR '' '' (py_strip ''/s -d'') = [''/s'', ''-d'']" by code_simp
  have dd: "startswith ''-d'' ''-''" by code_simp
  have so: "length (split_on CHR '' '' (py_strip ''/csv'')) \<le> 1" by code_simp
  have r3: "(1::int) \<le> 3 \<and> 3 \<le> int (length (palettes five_palettes))" by (simp add: n)
  have r6: "(6::int) = 0 \<or> int (length (palettes five_palettes)) < 6" by (simp add: n)
  have r0: "(0::int) = 0 \<or> int (length (palettes five_palettes)) < 0" by simp
  have r1: "(if 1 \<le> int (length (palettes five_palettes)) then Some 1 else None) = Some (1::int)"
    by (simp add: n)
  have "get_indice_from_option ''/csv 3'' five_palettes True = Some 3"
    using index_resolution [of "''/csv 3''" five_palettes True] s3 p3 r3 by blast
  moreover have "get_indice_from_option ''/csv ALL'' five_palettes True = Some (- 1)"
    using index_resolution [of "''/csv ALL''" five_palettes True] sA by blast
  moreover have "get_indice_from_option ''/csv all'' five_palettes True = Some (- 1)"
    using index_resolution [of "''/csv all''" five_palettes True] sa by blast
  moreover have "get_indice_from_option ''/csv 6'' five_palettes True = None"
    using index_resolution [of "''/csv 6''" five_palettes True] s6 p6 r6 by blast
  moreover have "get_indice_from_option ''/csv 0'' five_palettes True = None"
    using index_resolution [of "''/csv 0''" five_palettes True] s0 p0 r0 by blast
  moreover have "get_indice_from_option ''/s -d'' five_palettes False = Some 1"
    using index_resolution [of "''/s -d''" five_palettes False] sd dd r1 by metis
  moreover have "get_indice_from_option ''/csv'' five_palettes True = Some 1"
    using index_resolution [of "''/csv''" five_palettes True] so r1 by metis
  ultimately show ?thesis
    using s3 p3 by blast
qed

text \<open>
  The mixed-case token \<open>All\<close> is not the wildcard; a token that is not a number is valid when
  it starts with \<open>-\<close>; the default index is invalid for an empty collection.
\<close>

theorem index_resolution_mixed_case:
  "get_indice_from_option ''/csv All'' five_palettes True = None
   \<and> get_indice_from_option ''/csv -x'' five_palettes True = Some 1
   \<and> get_indice_from_option ''/csv'' \<lparr>palettes = []\<rparr> True = None"
  by code_simp

section \<open>Properties of the GPL export\<close>

lemma split_on_line: "c \<notin> set l \<Longrightarrow> split_on c (l @ c # rest) = l # split_on c rest"
  by (induction l) (auto split: list.splits simp: split_on_nonempty)

lemma split_on_lines:
  "\<forall>l \<in> set ls. c \<notin> set l \<Longrightarrow> split_on c (concat (map (\<lambda>l. l @ [c]) ls)) = ls @ [[]]"
  by (induction ls) (simp_all add: split_on_line)

lemma is_digit_plain: "is_digit c \<Longrightarrow> c \<noteq> LF \<and> \<not> csv_special c"
  by (auto simp: is_digit_def csv_special_def Let_def)

lemma py_str_plain: "LF \<notin> set (py_str i)" "\<not> list_ex csv_special (py_str i)"
proof -
  have d: "\<forall>c \<in> set (dec_digits n). c \<noteq> LF \<and> \<not> csv_special c" for n
    using dec_digits_digits [of n] is_digit_plain by (auto simp: list_all_iff)
  have m: "\<not> csv_special CHR ''-''" by (simp add: csv_special_def)
  show "LF \<notin> set (py_str i)"
    using d by (auto simp: py_str_def)
  show "\<not> list_ex csv_special (py_str i)"
    using d m by (auto simp: py_str_def list_ex_iff)
qed

lemma gpl_foldl:
  "foldl (\<lambda>output ic. output @ g ic @ [LF]) out xs = out @ concat (map (\<lambda>ic. g ic @ [LF]) xs)"
  by (induction xs arbitrary: out) simp_all

lemma gpl_export_lines:
  "ExportToGPL_export palette_name palette_rgb palette_hex
     = concat (map (\<lambda>l. l @ [LF])
         (gpl_header palette_name (length palette_rgb) @ map gpl_color (enumerate 0 palette_rgb)))"
  by (simp add: ExportToGPL_export_def gpl_header_def gpl_foldl comp_def)

lemma gpl_color_no_LF: "LF \<notin> set (gpl_color ic)"
  by (cases ic rule: gpl_color.cases) (simp add: py_str_plain)

lemma gpl_header_no_LF: "LF \<notin> set palette_name \<Longrightarrow> \<forall>l \<in> set (gpl_header palette_name n). LF \<notin> set l"
  by (simp add: gpl_header_def py_str_plain)

lemma map_enumerate_index:
  "map f (enumerate 0 xs) = map (\<lambda>i. f (i, xs ! i)) [0..<length xs]"
  by (rule nth_equalityI) (simp_all add: nth_enumerate_eq)

lemma gpl_color_case:
  "gpl_color (i, x) =
     (case x of (r, g, b) \<Rightarrow>
        py_str r @ '' '' @ py_str g @ '' '' @ py_str b @ '' Index '' @ py_str (int i))"
  by (cases x) simp

lemma gpl_lines_explicit:
  "gpl_header palette_name (length palette_rgb) @ map gpl_color (enumerate 0 palette_rgb)
     = [''GIMP Palette'', ''Name: '' @ palette_name, ''Columns: 5'', ''#'',
        ''# Number : '' @ py_str (int (length palette_rgb)), ''#'']
       @ map (\<lambda>i. case palette_rgb ! i of (r, g, b) \<Rightarrow>
                py_str r @ '' '' @ py_str g @ '' '' @ py_str b @ '' Index '' @ py_str (int i))
           [0..<length palette_rgb]"
  by (simp add: gpl_header_def map_enumerate_index gpl_color_case)

text \<open>
  Claim C6, amended. The text written is the six header lines \<open>GIMP Palette\<close>,
  \<open>Name: {paletteName}\<close>, \<open>Columns: 5\<close>, \<open>#\<close>, \<open># Number : {N}\<close>, \<open>#\<close>, followed for each
  \<open>i\<close> from 0 to N - 1 by the line \<open>{R} {G} {B} Index {i}\<close> of the \<open>i\<close>-th colour \<open>(R, G, B)\<close> of
  the palette, each of the 6 + N strings ended by a line feed; the numbers are written in
  decimal, so that the Number field reads back as N and the Index field of line \<open>i\<close> as \<open>i\<close>.
  When the palette name holds no line feed these strings are exactly the lines of the text.
\<close>

theorem gpl_export_layout:
  "ExportToGPL_export palette_name palette_rgb palette_hex
     = concat (map (\<lambda>l. l @ [LF])
         ([''GIMP Palette'', ''Name: '' @ palette_name, ''Columns: 5'', ''#'',
           ''# Number : '' @ py_str (int (length palette_rgb)), ''#'']
          @ map (\<lambda>i. case palette_rgb ! i of (r, g, b) \<Rightarrow>
                   py_str r @ '' '' @ py_str g @ '' '' @ py_str b @ '' Index '' @ py_str (int i))
              [0..<length palette_rgb]))
   \<and> (LF \<notin> set palette_name \<longrightarrow>
        split_on LF (ExportToGPL_export palette_name palette_rgb palette_hex)
          = [''GIMP Palette'', ''Name: '' @ palette_name, ''Columns: 5'', ''#'',
             ''# Number : '' @ py_str (int (length palette_rgb)), ''#'']
            @ map (\<lambda>i. case palette_rgb ! i of (r, g, b) \<Rightarrow>
                     py_str r @ '' '' @ py_str g @ '' '' @ py_str b @ '' Index '' @ py_str (int i))
                [0..<length palette_rgb]
            @ [[]])
   \<and> py_int (py_str (int (length palette_rgb))) = Some (int (length palette_rgb))
   \<and> (\<forall>i < length palette_rgb. py_int (py_str (int i)) = Some (int i))"
proof -
  let ?lines = "[''GIMP Palette'', ''Name: '' @ palette_name, ''Columns: 5'', ''#'',
           ''# Number : '' @ py_str (int (length palette_rgb)), ''#'']
          @ map (\<lambda>i. case palette_rgb ! i of (r, g, b) \<Rightarrow>
                   py_str r @ '' '' @ py_str g @ '' '' @ py_str b @ '' Index '' @ py_str (int i))
              [0..<length palette_rgb]"
  have e: "ExportToGPL_export palette_name palette_rgb palette_hex
     = concat (map (\<lambda>l. l @ [LF]) ?lines)"
    unfolding gpl_export_lines gpl_lines_explicit ..
  have s: "LF \<notin> set palette_name \<longrightarrow>
        split_on LF (ExportToGPL_export palette_name palette_rgb palette_hex) = ?lines @ [[]]"
  proof
    assume n: "LF \<notin> set palette_name"
    have "\<forall>l \<in> set (gpl_header palette_name (length palette_rgb)
                      @ map gpl_color (enumerate 0 palette_rgb)). LF \<notin> set l"
      using gpl_header_no_LF [OF n] gpl_color_no_LF by auto
    then have "\<forall>l \<in> set ?lines. LF \<notin> set l"
      unfolding gpl_lines_explicit .
    then have "split_on LF (concat (map (\<lambda>l. l @ [LF]) ?lines)) = ?lines @ [[]]"
      by (rule split_on_lines)
    then show "split_on LF (ExportToGPL_export palette_name palette_rgb palette_hex) = ?lines @ [[]]"
      unfolding e .
  qed
  show ?thesis
    using e s py_int_py_str by simp
qed

theorem gpl_export_layout_witness:
  "LF \<notin> set ''sunset''
   \<and> split_on LF (ExportToGPL_export ''sunset'' [(1, 2, 3), (40, 50, 60), (7, 8, 9)]
        [''#010203'', ''#28323C'', ''#070809''])
       = [''GIMP Palette'', ''Name: sunset'', ''Columns: 5'', ''#'', ''# Number : 3'', ''#'',
          ''1 2 3 Index 0'', ''40 50 60 Index 1'', ''7 8 9 Index 2'', []]"
proof -
  have n: "LF \<notin> set ''sunset''" by simp
  have h: "[''GIMP Palette'', ''Name: '' @ ''sunset'', ''Columns: 5'', ''#'',
             ''# Number : '' @ py_str (int (length [(1, 2, 3), (40, 50, 60), (7, 8, 9) :: rgb])), ''#'']
            @ map (\<lambda>i. case [(1, 2, 3), (40, 50, 60), (7, 8, 9)] ! i of (r, g, b) \<Rightarrow>
                     py_str r @ '' '' @ py_str g @ '' '' @ py_str b @ '' Index '' @ py_str (int i))
                [0..<length [(1, 2, 3), (40, 50, 60), (7, 8, 9) :: rgb]]
            @ [[]]
           = [''GIMP Palette'', ''Name: sunset'', ''Columns: 5'', ''#'', ''# Number : 3'', ''#'',
              ''1 2 3 Index 0'', ''40 50 60 Index 1'', ''7 8 9 Index 2'', []]"
    by code_simp
  have "split_on LF (ExportToGPL_export ''sunset'' [(1, 2, 3), (40, 50, 60), (7, 8, 9)]
        [''#010203'', ''#28323C'', ''#070809''])
          = [''GIMP Palette'', ''Name: '' @ ''sunset'', ''Columns: 5'', ''#'',
             ''# Number : '' @ py_str (int (length [(1, 2, 3), (40, 50, 60), (7, 8, 9) :: rgb])), ''#'']
            @ map (\<lambda>i. case [(1, 2, 3), (40, 50, 60), (7, 8, 9)] ! i of (r, g, b) \<Rightarrow>
                     py_str r @ '' '' @ py_str g @ '' '' @ py_str b @ '' Index '' @ py_str (int i))
                [0..<length [(1, 2, 3), (40, 50, 60), (7, 8, 9) :: rgb]]
            @ [[]]"
    using gpl_export_layout [of "''sunset''" "[(1, 2, 3), (40, 50, 60), (7, 8, 9)]"
        "[''#010203'', ''#28323C'', ''#070809'']"] n
    by blast
  then show ?thesis
    unfolding h using n by blast
qed

text \<open>
  A palette name with a line feed in it spreads the \<open>Name\<close> header over two lines: seven lines
  come before the colour lines.
\<close>

theorem gpl_export_name_with_line_feed:
  "split_on LF (ExportToGPL_export (''a'' @ [LF] @ ''b'') [] [])
     = [''GIMP Palette'', ''Name: a'', ''b'', ''Columns: 5'', ''#'', ''# Number : 0'', ''#'', []]"
  by code_simp

section \<open>Properties of the CSV export\<close>

lemma csv_reader_plain:
  "\<not> list_ex csv_special f \<Longrightarrow>
     csv_reader InField cur fs (f @ rest) = csv_reader InField (cur @ f) fs rest"
  by (induction f arbitrary: cur) (simp_all add: csv_special_def)

lemma csv_reader_quoted:
  "csv_reader InQuoted cur fs (concat (map (\<lambda>c. if c = DQ then [DQ, DQ] else [c]) f) @ rest)
     = csv_reader InQuoted (cur @ f) fs rest"
  by (induction f arbitrary: cur) simp_all

lemma csv_field_cases:
  obtains (quoted) "csv_field f = DQ # concat (map (\<lambda>c. if c = DQ then [DQ, DQ] else [c]) f) @ [DQ]"
  | (empty) "f = []" "csv_field f = []"
  | (plain) c f' where "f = c # f'" "csv_field f = f" "\<not> csv_special c" "\<not> list_ex csv_special f'"
proof (cases "list_ex csv_special f")
  case True
  then show ?thesis using quoted by (simp add: csv_field_def csv_quoted_def)
next
  case False
  then show ?thesis using empty plain by (cases f) (auto simp: csv_field_def)
qed

lemma csv_field_comma:
  "csv_reader StartField cur fs (csv_field f @ CHR '','' # rest) = csv_reader StartField [] (fs @ [f]) rest"
proof (cases f rule: csv_field_cases)
  case quoted
  show ?thesis
    using csv_reader_quoted [of "[]" fs f "DQ # CHR '','' # rest"] by (simp add: quoted)
next
  case empty
  then show ?thesis by simp
next
  case (plain c f')
  then show ?thesis
    using csv_reader_plain [of f' "[c]" fs "CHR '','' # rest"] by (simp add: csv_special_def)
qed

lemma csv_first_field_comma:
  "csv_reader StartRecord cur fs (csv_field f @ CHR '','' # rest) = csv_reader StartField [] [f] rest"
proof (cases f rule: csv_field_cases)
  case quoted
  show ?thesis
    using csv_reader_quoted [of "[]" "[]" f "DQ # CHR '','' # rest"] by (simp add: quoted)
next
  case empty
  then show ?thesis by simp
next
  case (plain c f')
  then show ?thesis
    using csv_reader_plain [of f' "[c]" "[]" "CHR '','' # rest"] by (simp add: csv_special_def)
qed

lemma csv_last_field:
  "csv_reader StartField cur fs (csv_field f @ CR # LF # rest)
     = (fs @ [f]) # csv_reader StartRecord [] [] rest"
proof (cases f rule: csv_field_cases)
  case quoted
  show ?thesis
    using csv_reader_quoted [of "[]" fs f "DQ # CR # LF # rest"] by (simp add: quoted)
next
  case empty
  then show ?thesis by simp
next
  case (plain c f')
  then show ?thesis
    using csv_reader_plain [of f' "[c]" fs "CR # LF # rest"] by (simp add: csv_special_def)
qed

lemma csv_row4:
  "csv_reader StartRecord [] [] (csv_writerow [a, b, c, d] @ rest)
     = [a, b, c, d] # csv_reader StartRecord [] [] rest"
  by (simp add: csv_writerow_def csv_first_field_comma csv_field_comma csv_last_field)

lemma csv_rows4:
  "\<forall>r \<in> set rows. length r = 4 \<Longrightarrow>
     csv_reader StartRecord [] [] (concat (map csv_writerow rows)) = rows"
proof (induction rows)
  case Nil
  then show ?case by simp
next
  case (Cons r rows)
  then obtain a b c d where r: "r = [a, b, c, d]"
    by (cases r rule: csv_decode_row.cases) auto
  show ?case using Cons by (simp add: r csv_row4)
qed

lemma length_csv_color_row: "length (csv_color_row x) = 4"
  by (cases x rule: csv_color_row.cases) simp

lemma csv_read_export:
  "csv_read (ExportToCSV_export palette_name palette_rgb palette_hex)
     = [''R'', ''G'', ''B'', ''HEX''] # map csv_color_row (zip palette_rgb palette_hex)"
proof -
  have "ExportToCSV_export palette_name palette_rgb palette_hex
          = concat (map csv_writerow
              ([''R'', ''G'', ''B'', ''HEX''] # map csv_color_row (zip palette_rgb palette_hex)))"
    by (simp add: ExportToCSV_export_def comp_def)
  moreover have "\<forall>r \<in> set ([''R'', ''G'', ''B'', ''HEX''] # map csv_color_row (zip palette_rgb palette_hex)).
      length r = 4"
    by (auto simp: length_csv_color_row)
  ultimately show ?thesis
    unfolding csv_read_def using csv_rows4 by metis
qed

lemma csv_decode_color_row: "csv_decode_row (csv_color_row x) = Some x"
  by (cases x rule: csv_color_row.cases) (simp add: py_int_py_str)

lemma those_rows_decode: "those_rows (map (\<lambda>x. csv_decode_row (csv_color_row x)) xs) = Some xs"
  by (induction xs) (simp_all add: csv_decode_color_row)

lemma csv_decode_export:
  "length palette_rgb = length palette_hex \<Longrightarrow>
     csv_decode (csv_read (ExportToCSV_export palette_name palette_rgb palette_hex))
       = Some (palette_rgb, palette_hex)"
  by (simp add: csv_read_export csv_decode_def comp_def those_rows_decode)

lemma csv_plain_row:
  "\<not> list_ex csv_special (snd x) \<Longrightarrow> csv_writerow (csv_color_row x) = csv_plain_line x @ [CR, LF]"
  by (cases x rule: csv_color_row.cases) (simp add: csv_writerow_def csv_field_def py_str_plain)

lemma csv_plain_header: "csv_writerow [''R'', ''G'', ''B'', ''HEX''] = ''R,G,B,HEX'' @ [CR, LF]"
  by (simp add: csv_writerow_def csv_field_def csv_special_def)

lemma csv_plain_export:
  assumes "\<forall>h \<in> set palette_hex. \<not> list_ex csv_special h"
  shows "ExportToCSV_export palette_name palette_rgb palette_hex
     = concat (map (\<lambda>l. l @ [CR, LF])
         (''R,G,B,HEX'' # map csv_plain_line (zip palette_rgb palette_hex)))"
proof -
  have "\<forall>x \<in> set (zip palette_rgb palette_hex). \<not> list_ex csv_special (snd x)"
    using assms by (auto dest: set_zip_rightD)
  then have "\<And>x. x \<in> set (zip palette_rgb palette_hex) \<Longrightarrow>
      csv_writerow (csv_color_row x) = csv_plain_line x @ [CR, LF]"
    using csv_plain_row by blast
  then have m: "map (\<lambda>row. csv_writerow (csv_color_row row)) (zip palette_rgb palette_hex)
      = map (\<lambda>x. csv_plain_line x @ [CR, LF]) (zip palette_rgb palette_hex)"
    by (rule map_cong [OF refl])
  show ?thesis
    unfolding ExportToCSV_export_def m csv_plain_header by (simp add: comp_def)
qed

lemma csv_plain_line_no_LF:
  "\<not> list_ex csv_special (snd x) \<Longrightarrow> LF \<notin> set (csv_plain_line x)"
  by (cases x rule: csv_plain_line.cases) (auto simp: py_str_plain list_ex_iff csv_special_def)

lemma csv_plain_lines:
  assumes "\<forall>h \<in> set palette_hex. \<not> list_ex csv_special h"
  shows "split_on LF (ExportToCSV_export palette_name palette_rgb palette_hex)
     = map (\<lambda>l. l @ [CR]) (''R,G,B,HEX'' # map csv_plain_line (zip palette_rgb palette_hex)) @ [[]]"
proof -
  let ?ls = "map (\<lambda>l. l @ [CR]) (''R,G,B,HEX'' # map csv_plain_line (zip palette_rgb palette_hex))"
  have z: "\<forall>x \<in> set (zip palette_rgb palette_hex). \<not> list_ex csv_special (snd x)"
    using assms by (auto dest: set_zip_rightD)
  have "\<forall>l \<in> set ?ls. LF \<notin> set l"
    using z csv_plain_line_no_LF by auto
  then have s: "split_on LF (concat (map (\<lambda>l. l @ [LF]) ?ls)) = ?ls @ [[]]"
    by (rule split_on_lines)
  have e: "ExportToCSV_export palette_name palette_rgb palette_hex
      = concat (map (\<lambda>l. l @ [LF]) ?ls)"
    unfolding csv_plain_export [OF assms] by (simp add: comp_def)
  show ?thesis
    unfolding e by (rule s)
qed


lemma map_zip_index:
  "length xs = length ys \<Longrightarrow> map f (zip xs ys) = map (\<lambda>i. f (xs ! i, ys ! i)) [0..<length xs]"
  by (rule nth_equalityI) simp_all

lemma csv_color_row_case:
  "csv_color_row (x, h) = (case x of (r, g, b) \<Rightarrow> [py_str r, py_str g, py_str b, h])"
  by (cases x) simp

lemma csv_plain_line_case:
  "csv_plain_line (x, h) =
     (case x of (r, g, b) \<Rightarrow> py_str r @ '','' @ py_str g @ '','' @ py_str b @ '','' @ h)"
  by (cases x) simp

lemma hex_digits_chars: "\<forall>c \<in> set (hex_digits n). \<exists>d < 16. c = digit_char d"
proof (induction n rule: hex_digits.induct)
  case (1 n)
  show ?case
  proof (cases "n < 16")
    case True
    then show ?thesis by (subst hex_digits.simps) auto
  next
    case False
    have "\<exists>d < 16. digit_char (n mod 16) = digit_char d"
      by (rule exI [of _ "n mod 16"]) simp
    then show ?thesis using False 1
      by (subst hex_digits.simps) auto
  qed
qed

lemma upper_hex_digit_plain: "upper_hex_digit c \<Longrightarrow> \<not> csv_special c"
  by (auto simp: upper_hex_digit_def csv_special_def)

lemma upper_digit_plain: "d < 16 \<Longrightarrow> \<not> csv_special (upper_char (digit_char d))"
  by (rule upper_hex_digit_plain) (rule upper_digit_char(1))

lemma upper_sign_plain:
  "\<not> csv_special (upper_char CHR ''-'')" "\<not> csv_special (upper_char CHR ''#'')"
  "\<not> csv_special (upper_char CHR ''0'')"
  by code_simp+

lemma format_02x_set:
  "set (format_02x i) \<subseteq> {CHR ''-'', CHR ''0''} \<union> set (hex_digits (nat \<bar>i\<bar>))"
proof (cases "i < 0")
  case True
  then have "format_02x i = CHR ''-'' # hex_digits (nat (- i))"
    by (simp add: format_02x_def)
  moreover have "nat \<bar>i\<bar> = nat (- i)" using True by simp
  ultimately show ?thesis by auto
next
  case False
  then have "format_02x i = replicate (2 - length (hex_digits (nat i))) CHR ''0'' @ hex_digits (nat i)"
    by (simp add: format_02x_def Let_def)
  moreover have "nat \<bar>i\<bar> = nat i" using False by simp
  moreover have "set (replicate (2 - length (hex_digits (nat i))) CHR ''0'') \<subseteq> {CHR ''0''}"
    by (simp add: set_replicate_conv_if)
  ultimately show ?thesis by (simp only: set_append) blast
qed

lemma format_02x_plain: "c \<in> set (format_02x i) \<Longrightarrow> \<not> csv_special (upper_char c)"
proof -
  assume "c \<in> set (format_02x i)"
  then consider "c = CHR ''-''" | "c = CHR ''0''" | "c \<in> set (hex_digits (nat \<bar>i\<bar>))"
    using format_02x_set [of i] by blast
  then show ?thesis
  proof cases
    case 1
    then show ?thesis by (simp only: upper_sign_plain(1) not_False_eq_True)
  next
    case 2
    then show ?thesis by (simp only: upper_sign_plain(3) not_False_eq_True)
  next
    case 3
    then obtain d where "d < 16" and "c = digit_char d"
      using hex_digits_chars [of "nat \<bar>i\<bar>"] by blast
    then show ?thesis by (simp only: upper_digit_plain not_False_eq_True)
  qed
qed

lemma convert_rgb_to_hex_plain: "\<not> list_ex csv_special (convert_rgb_to_hex c)"
proof -
  obtain r g b where c: "c = (r, g, b)" by (cases c)
  have "\<not> csv_special y" if y: "y \<in> set (convert_rgb_to_hex (r, g, b))" for y
  proof -
    from y obtain x where x: "x = CHR ''#'' \<or> x \<in> set (format_02x r) \<or> x \<in> set (format_02x g)
        \<or> x \<in> set (format_02x b)" and yx: "y = upper_char x"
      unfolding convert_rgb_to_hex.simps py_upper_def by auto
    from x show ?thesis
      unfolding yx using format_02x_plain upper_sign_plain(2) by blast
  qed
  then show ?thesis
    unfolding c list_ex_iff by blast
qed

text \<open>
  Claim C4. For RGB and hex lists of equal length N whose hex strings hold no comma, double
  quote, carriage return or line feed, the text written has exactly N + 1 lines, each ended by
  \<open>\r\n\<close>: the header \<open>R,G,B,HEX\<close>, then for each \<open>i\<close> from 0 to N - 1 the line \<open>{R},{G},{B},{HEX}\<close>
  of the \<open>i\<close>-th colour \<open>(R, G, B)\<close> and the \<open>i\<close>-th hex string. Reading the text back gives the
  N + 1 records of these fields, and decoding them gives the two lists back, in order. Every
  string \<open>convert_rgb_to_hex\<close> returns is free of the four characters, and the hex list the
  program passes to the exporter is made of such strings.
\<close>

theorem csv_export_roundtrip:
  "(length palette_rgb = length palette_hex
      \<and> (\<forall>h \<in> set palette_hex. \<not> list_ex csv_special h) \<longrightarrow>
      split_on LF (ExportToCSV_export palette_name palette_rgb palette_hex)
        = map (\<lambda>l. l @ [CR])
            (''R,G,B,HEX''
             # map (\<lambda>i. case palette_rgb ! i of (r, g, b) \<Rightarrow>
                      py_str r @ '','' @ py_str g @ '','' @ py_str b @ '','' @ palette_hex ! i)
                 [0..<length palette_rgb])
          @ [[]]
    \<and> length (split_on LF (ExportToCSV_export palette_name palette_rgb palette_hex))
        = length palette_rgb + 1 + 1)
   \<and> (length palette_rgb = length palette_hex \<longrightarrow>
        csv_read (ExportToCSV_export palette_name palette_rgb palette_hex)
          = [''R'', ''G'', ''B'', ''HEX'']
            # map (\<lambda>i. case palette_rgb ! i of (r, g, b) \<Rightarrow>
                     [py_str r, py_str g, py_str b, palette_hex ! i])
                [0..<length palette_rgb]
      \<and> length (csv_read (ExportToCSV_export palette_name palette_rgb palette_hex))
          = length palette_rgb + 1
      \<and> csv_decode (csv_read (ExportToCSV_export palette_name palette_rgb palette_hex))
          = Some (palette_rgb, palette_hex))
   \<and> (\<forall>h \<in> set (map convert_rgb_to_hex colors). \<not> list_ex csv_special h)"
proof (intro conjI impI)
  assume a: "length palette_rgb = length palette_hex
      \<and> (\<forall>h \<in> set palette_hex. \<not> list_ex csv_special h)"
  then have l: "length palette_rgb = length palette_hex"
    and p: "\<forall>h \<in> set palette_hex. \<not> list_ex csv_special h"
    by blast+
  have m: "map csv_plain_line (zip palette_rgb palette_hex)
      = map (\<lambda>i. case palette_rgb ! i of (r, g, b) \<Rightarrow>
                      py_str r @ '','' @ py_str g @ '','' @ py_str b @ '','' @ palette_hex ! i)
          [0..<length palette_rgb]"
    unfolding map_zip_index [OF l] csv_plain_line_case ..
  then show "split_on LF (ExportToCSV_export palette_name palette_rgb palette_hex)
        = map (\<lambda>l. l @ [CR])
            (''R,G,B,HEX''
             # map (\<lambda>i. case palette_rgb ! i of (r, g, b) \<Rightarrow>
                      py_str r @ '','' @ py_str g @ '','' @ py_str b @ '','' @ palette_hex ! i)
                 [0..<length palette_rgb])
          @ [[]]"
    using csv_plain_lines [OF p, of palette_name palette_rgb] by simp
  show "length (split_on LF (ExportToCSV_export palette_name palette_rgb palette_hex))
        = length palette_rgb + 1 + 1"
    using l by (simp add: csv_plain_lines [OF p, of palette_name palette_rgb])
next
  assume l: "length palette_rgb = length palette_hex"
  have m: "map csv_color_row (zip palette_rgb palette_hex)
      = map (\<lambda>i. case palette_rgb ! i of (r, g, b) \<Rightarrow>
                     [py_str r, py_str g, py_str b, palette_hex ! i])
          [0..<length palette_rgb]"
    unfolding map_zip_index [OF l] csv_color_row_case ..
  then show "csv_read (ExportToCSV_export palette_name palette_rgb palette_hex)
          = [''R'', ''G'', ''B'', ''HEX'']
            # map (\<lambda>i. case palette_rgb ! i of (r, g, b) \<Rightarrow>
                     [py_str r, py_str g, py_str b, palette_hex ! i])
                [0..<length palette_rgb]"
    using csv_read_export [of palette_name palette_rgb palette_hex] by simp
  show "length (csv_read (ExportToCSV_export palette_name palette_rgb palette_hex))
          = length palette_rgb + 1"
    using l by (simp add: csv_read_export)
  show "csv_decode (csv_read (ExportToCSV_export palette_name palette_rgb palette_hex))
          = Some (palette_rgb, palette_hex)"
    using l by (rule csv_decode_export)
next
  show "\<forall>h \<in> set (map convert_rgb_to_hex colors). \<not> list_ex csv_special h"
    by (simp add: convert_rgb_to_hex_plain)
qed

theorem csv_export_roundtrip_witness:
  "length [(255, 255, 255), (0, 0, 0), (255, 0, 0), (0, 255, 0), (1, 2, 3) :: rgb]
     = length (map convert_rgb_to_hex [(255, 255, 255), (0, 0, 0), (255, 0, 0), (0, 255, 0), (1, 2, 3)])
   \<and> list_all (\<lambda>h. \<not> list_ex csv_special h)
       (map convert_rgb_to_hex [(255, 255, 255), (0, 0, 0), (255, 0, 0), (0, 255, 0), (1, 2, 3)])
   \<and> split_on LF (ExportToCSV_export ''p''
        [(255, 255, 255), (0, 0, 0), (255, 0, 0), (0, 255, 0), (1, 2, 3)]
        (map convert_rgb_to_hex [(255, 255, 255), (0, 0, 0), (255, 0, 0), (0, 255, 0), (1, 2, 3)]))
       = [''R,G,B,HEX'' @ [CR], ''255,255,255,#FFFFFF'' @ [CR], ''0,0,0,#000000'' @ [CR],
          ''255,0,0,#FF0000'' @ [CR], ''0,255,0,#00FF00'' @ [CR], ''1,2,3,#010203'' @ [CR], []]
   \<and> csv_decode (csv_read (ExportToCSV_export ''p''
        [(255, 255, 255), (0, 0, 0), (255, 0, 0), (0, 255, 0), (1, 2, 3)]
        (map convert_rgb_to_hex [(255, 255, 255), (0, 0, 0), (255, 0, 0), (0, 255, 0), (1, 2, 3)])))
       = Some ([(255, 255, 255), (0, 0, 0), (255, 0, 0), (0, 255, 0), (1, 2, 3)],
               map convert_rgb_to_hex [(255, 255, 255), (0, 0, 0), (255, 0, 0), (0, 255, 0), (1, 2, 3)])"
proof -
  let ?rgb = "[(255, 255, 255), (0, 0, 0), (255, 0, 0), (0, 255, 0), (1, 2, 3)] :: rgb list"
  let ?hex = "map convert_rgb_to_hex ?rgb"
  note t = csv_export_roundtrip [of ?rgb ?hex "''p''" ?rgb]
  have l: "length ?rgb = length ?hex" by simp
  have p': "\<forall>h \<in> set ?hex. \<not> list_ex csv_special h"
    using t by blast
  then have p: "list_all (\<lambda>h. \<not> list_ex csv_special h) ?hex"
    unfolding list_all_iff .
  have v: "map (\<lambda>l. l @ [CR])
            (''R,G,B,HEX''
             # map (\<lambda>i. case ?rgb ! i of (r, g, b) \<Rightarrow>
                      py_str r @ '','' @ py_str g @ '','' @ py_str b @ '','' @ ?hex ! i)
                 [0..<length ?rgb])
          @ [[]]
      = [''R,G,B,HEX'' @ [CR], ''255,255,255,#FFFFFF'' @ [CR], ''0,0,0,#000000'' @ [CR],
         ''255,0,0,#FF0000'' @ [CR], ''0,255,0,#00FF00'' @ [CR], ''1,2,3,#010203'' @ [CR], []]"
    by code_simp
  have s: "split_on LF (ExportToCSV_export ''p'' ?rgb ?hex)
      = map (\<lambda>l. l @ [CR])
            (''R,G,B,HEX''
             # map (\<lambda>i. case ?rgb ! i of (r, g, b) \<Rightarrow>
                      py_str r @ '','' @ py_str g @ '','' @ py_str b @ '','' @ ?hex ! i)
                 [0..<length ?rgb])
          @ [[]]"
    using t l p' by blast
  have d: "csv_decode (csv_read (ExportToCSV_export ''p'' ?rgb ?hex)) = Some (?rgb, ?hex)"
    using t l by blast
  show ?thesis
    using l p s [unfolded v] d by blast
qed

section \<open>Properties of the JSON export\<close>

lemma hex_value_digit_table:
  "list_all (\<lambda>d. hex_value (digit_char d) = Some d) [0,1,2,3,4,5,6,7,8,9,10,11,12,13,14,15]"
  by code_simp

lemma hex_value_digit: "d < 16 \<Longrightarrow> hex_value (digit_char d) = Some d"
  using hex_value_digit_table nat_lt16_cases [of d] unfolding list_all_iff by blast

lemma hex4_value_hex4:
  assumes "n < 256"
  shows "hex4 n = [a, b, c, d] \<Longrightarrow> hex4_value a b c d = Some n"
proof -
  assume h: "hex4 n = [a, b, c, d]"
  have z: "n div 4096 = 0" "n div 256 = 0" using assms by simp_all
  have m: "n div 16 < 16" using assms by (simp add: less_mult_imp_div_less)
  have e: "16 * (n div 16) + n mod 16 = n" by simp
  from h have "a = digit_char 0" "b = digit_char 0" "c = digit_char (n div 16)" "d = digit_char (n mod 16)"
    using m by (auto simp: hex4_def z)
  then show ?thesis
    using m e by (simp add: hex4_value_def hex_value_digit)
qed

lemma of_char_bound: "(of_char c :: nat) < 256"
proof -
  have "(of_char c :: nat) mod 256 = of_char c" by (rule of_char_mod_256)
  moreover have "(of_char c :: nat) mod 256 < 256" by simp
  ultimately show ?thesis by simp
qed

lemma char_codes:
  "char_of (10::nat) = LF" "char_of (13::nat) = CR" "char_of (9::nat) = CHR 0x09"
  "char_of (8::nat) = CHR 0x08" "char_of (12::nat) = CHR 0x0C"
  by code_simp+

lemma char_of_code: "(of_char c :: nat) = n \<Longrightarrow> c = char_of n"
  by auto

lemma json_body_unicode:
  "hex4_value a b c d = Some n \<Longrightarrow> n < 256 \<Longrightarrow>
     json_string_body acc (BS # CHR ''u'' # a # b # c # d # rest)
       = json_string_body (acc @ [char_of n]) rest"
  by simp

lemma json_body_letter:
  "e \<noteq> CHR ''u'' \<Longrightarrow> json_unescape e = Some ch \<Longrightarrow>
     json_string_body acc (BS # e # rest) = json_string_body (acc @ [ch]) rest"
  by simp

lemma json_body_plain:
  "c \<noteq> DQ \<Longrightarrow> c \<noteq> BS \<Longrightarrow> 32 \<le> (of_char c :: nat) \<Longrightarrow>
     json_string_body acc (c # rest) = json_string_body (acc @ [c]) rest"
  by simp

lemma json_escape_step:
  "json_string_body acc (json_escape c @ rest) = json_string_body (acc @ [c]) rest"
proof -
  let ?n = "of_char c :: nat"
  consider (dq) "c = DQ" | (bs) "c = BS"
    | (n) "c \<noteq> DQ" "c \<noteq> BS" "?n = 10" | (r) "c \<noteq> DQ" "c \<noteq> BS" "?n = 13"
    | (t) "c \<noteq> DQ" "c \<noteq> BS" "?n = 9" | (b) "c \<noteq> DQ" "c \<noteq> BS" "?n = 8"
    | (f) "c \<noteq> DQ" "c \<noteq> BS" "?n = 12"
    | (u) "c \<noteq> DQ" "c \<noteq> BS" "?n \<noteq> 10" "?n \<noteq> 13" "?n \<noteq> 9" "?n \<noteq> 8" "?n \<noteq> 12" "?n < 32 \<or> 127 \<le> ?n"
    | (p) "c \<noteq> DQ" "c \<noteq> BS" "?n \<noteq> 10" "?n \<noteq> 13" "?n \<noteq> 9" "?n \<noteq> 8" "?n \<noteq> 12" "\<not> (?n < 32 \<or> 127 \<le> ?n)"
    by blast
  then show ?thesis
  proof cases
    case dq
    then show ?thesis
      using json_body_letter [of DQ DQ acc rest] by (simp add: json_escape_def json_unescape_def)
  next
    case bs
    then show ?thesis
      using json_body_letter [of BS BS acc rest] by (simp add: json_escape_def json_unescape_def)
  next
    case n
    then have "c = LF" using char_of_code [of c 10] by (simp add: char_codes)
    then show ?thesis
      using json_body_letter [of "CHR ''n''" LF acc rest] by (simp add: json_escape_def json_unescape_def)
  next
    case r
    then have "c = CR" using char_of_code [of c 13] by (simp add: char_codes)
    then show ?thesis
      using json_body_letter [of "CHR ''r''" CR acc rest] by (simp add: json_escape_def json_unescape_def)
  next
    case t
    then have "c = CHR 0x09" using char_of_code [of c 9] by (simp add: char_codes)
    then show ?thesis
      using json_body_letter [of "CHR ''t''" "CHR 0x09" acc rest] by (simp add: json_escape_def json_unescape_def)
  next
    case b
    then have "c = CHR 0x08" using char_of_code [of c 8] by (simp add: char_codes)
    then show ?thesis
      using json_body_letter [of "CHR ''b''" "CHR 0x08" acc rest] by (simp add: json_escape_def json_unescape_def)
  next
    case f
    then have "c = CHR 0x0C" using char_of_code [of c 12] by (simp add: char_codes)
    then show ?thesis
      using json_body_letter [of "CHR ''f''" "CHR 0x0C" acc rest] by (simp add: json_escape_def json_unescape_def)
  next
    case u
    obtain h3 h2 h1 h0 where h: "hex4 ?n = [h3, h2, h1, h0]"
      by (simp add: hex4_def)
    have e: "json_escape c = [BS, CHR ''u'', h3, h2, h1, h0]"
      using u h by (simp add: json_escape_def Let_def)
    have v: "hex4_value h3 h2 h1 h0 = Some ?n"
      using hex4_value_hex4 [OF of_char_bound h] .
    show ?thesis
      unfolding e using json_body_unicode [OF v of_char_bound, of acc rest] by simp
  next
    case p
    then have e: "json_escape c = [c]" by (simp add: json_escape_def Let_def)
    show ?thesis
      unfolding e using json_body_plain [of c acc rest] p by simp
  qed
qed

lemma json_body_escaped:
  "json_string_body acc (concat (map json_escape s) @ DQ # rest) = Some (acc @ s, rest)"
  by (induction s arbitrary: acc) (simp_all add: json_escape_step)

lemma json_parse_string_roundtrip: "json_parse_string (json_string s @ rest) = Some (s, rest)"
  using json_body_escaped [of "[]" s rest] by (simp add: json_parse_string_def json_string_def)


lemma dec_digits_hd: "n \<noteq> 0 \<Longrightarrow> hd (dec_digits n) \<noteq> CHR ''0''"
proof (induction n rule: dec_digits.induct)
  case (1 n)
  show ?case
  proof (cases "n < 10")
    case True
    have "list_all (\<lambda>d. digit_char d \<noteq> CHR ''0'') [1,2,3,4,5,6,7,8,9]" by code_simp
    moreover have "n \<in> set [1,2,3,4,5,6,7,8,9]" using True "1.prems" by (simp; arith)
    ultimately have "digit_char n \<noteq> CHR ''0''" unfolding list_all_iff by blast
    then show ?thesis using True by (subst dec_digits.simps) simp
  next
    case False
    then have "n div 10 \<noteq> 0" by simp
    then have "hd (dec_digits (n div 10)) \<noteq> CHR ''0''" using 1 False by simp
    moreover have "dec_digits (n div 10) \<noteq> []" using dec_digits_digits by simp
    ultimately show ?thesis using False by (subst dec_digits.simps) simp
  qed
qed

lemma dec_digits_0: "dec_digits 0 = ''0''"
  by (subst dec_digits.simps) (simp add: digit_char_def)

lemma dec_digits_canonical: "\<not> (1 < length (dec_digits n) \<and> hd (dec_digits n) = CHR ''0'')"
  by (cases "n = 0") (simp_all add: dec_digits_0 dec_digits_hd)

lemma json_int_digits:
  assumes "rest = [] \<or> (\<not> is_digit (hd rest) \<and> hd rest \<notin> set ''.eE'')"
  shows "takeWhile is_digit (dec_digits n @ rest) = dec_digits n"
    and "dropWhile is_digit (dec_digits n @ rest) = rest"
proof -
  have d: "\<And>x. x \<in> set (dec_digits n) \<Longrightarrow> is_digit x"
    using dec_digits_digits [of n] by (simp add: list_all_iff)
  have t: "takeWhile is_digit rest = []" "dropWhile is_digit rest = rest"
    using assms by (cases rest; auto)+
  show "takeWhile is_digit (dec_digits n @ rest) = dec_digits n"
    using takeWhile_append2 [of "dec_digits n" is_digit rest] d t by simp
  show "dropWhile is_digit (dec_digits n @ rest) = rest"
    using dropWhile_append2 [of "dec_digits n" is_digit rest] d t by simp
qed

lemma json_parse_int_roundtrip:
  assumes "rest = [] \<or> (\<not> is_digit (hd rest) \<and> hd rest \<notin> set ''.eE'')"
  shows "json_parse_int (py_str i @ rest) = Some (i, rest)"
proof (cases "i < 0")
  case True
  let ?ds = "dec_digits (nat (- i))"
  have c: "\<not> (1 < length ?ds \<and> hd ?ds = CHR ''0'')" by (rule dec_digits_canonical)
  have n: "?ds \<noteq> []" using dec_digits_digits by simp
  have r: "\<not> (rest \<noteq> [] \<and> hd rest \<in> set ''.eE'')" using assms by auto
  have "json_parse_int (CHR ''-'' # ?ds @ rest) = Some (- int (digits_value ?ds), rest)"
    using c n r
    by (simp add: json_parse_int_def json_int_digits [OF assms] Let_def del: set_simps)
  then show ?thesis
    using True by (simp add: py_str_def digits_value_dec)
next
  case False
  let ?ds = "dec_digits (nat i)"
  have c: "\<not> (1 < length ?ds \<and> hd ?ds = CHR ''0'')" by (rule dec_digits_canonical)
  obtain x xs where ds: "?ds = x # xs"
    using dec_digits_digits [of "nat i"] by (cases ?ds) auto
  have x: "x \<noteq> CHR ''-''"
    using dec_digits_digits [of "nat i"] is_digit_not_space [of x] by (simp add: ds)
  have r: "\<not> (rest \<noteq> [] \<and> hd rest \<in> set ''.eE'')" using assms by auto
  have s: "(case ?ds @ rest of [] \<Rightarrow> (False, ?ds @ rest)
             | c # r \<Rightarrow> if c = CHR ''-'' then (True, r) else (False, ?ds @ rest))
           = (False, ?ds @ rest)"
    using x by (simp add: ds)
  have "json_parse_int (?ds @ rest) = Some (int (digits_value ?ds), rest)"
    unfolding json_parse_int_def s using c r
    by (simp add: json_int_digits [OF assms] Let_def del: set_simps) (simp add: ds)
  then show ?thesis
    using False by (simp add: py_str_def digits_value_dec)
qed


lemma skip_ws_token: "\<not> json_space c \<Longrightarrow> skip_ws (c # s) = c # s"
  by (simp add: skip_ws_def)

lemma skip_ws_space: "skip_ws (CHR '' '' # s) = skip_ws s"
  by (simp add: skip_ws_def json_space_def)

lemma json_items_length:
  "\<forall>x \<in> set items. x \<noteq> [] \<Longrightarrow> length items \<le> length (json_items items)"
  by (induction items rule: json_items.induct) (auto simp: Suc_le_eq)

lemma json_items_start:
  "items \<noteq> [] \<Longrightarrow> hd items \<noteq> [] \<Longrightarrow> \<exists>t. json_items items @ rest = hd (hd items) # t"
  by (induction items rule: json_items.induct) (auto simp: neq_Nil_conv)

lemma json_parse_items_roundtrip:
  assumes p: "\<And>x rest. rest \<noteq> [] \<Longrightarrow> hd rest = CHR '','' \<or> hd rest = CHR '']''
                \<Longrightarrow> p (w x @ rest) = Some (x, rest)"
    and w: "\<And>x. w x \<noteq> [] \<and> \<not> json_space (hd (w x))"
  shows "xs \<noteq> [] \<Longrightarrow> length xs \<le> k \<Longrightarrow>
     json_parse_items k p (json_items (map w xs) @ CHR '']'' # rest) = Some (xs, rest)"
proof (induction xs arbitrary: k)
  case Nil
  then show ?case by simp
next
  case (Cons x xs)
  then obtain k' where k: "k = Suc k'" by (cases k) auto
  have nb: "\<not> json_space CHR '']''" "\<not> json_space CHR '','' " by (simp_all add: json_space_def)
  show ?case
  proof (cases xs)
    case Nil
    have "p (w x @ CHR '']'' # rest) = Some (x, CHR '']'' # rest)"
      by (rule p) simp_all
    then show ?thesis
      using nb by (simp add: k Nil skip_ws_token)
  next
    case (Cons y ys)
    let ?tail = "json_items (map w xs) @ CHR '']'' # rest"
    have px: "p (w x @ CHR '','' # CHR '' '' # ?tail) = Some (x, CHR '','' # CHR '' '' # ?tail)"
      by (rule p) simp_all
    obtain t where t: "?tail = hd (w y) # t"
      using json_items_start [of "map w xs" "CHR '']'' # rest"] w [of y] by (auto simp: Cons)
    have sk: "skip_ws ?tail = ?tail"
      unfolding t using w [of y] by (simp add: skip_ws_token)
    have ih: "json_parse_items k' p ?tail = Some (xs, rest)"
      using Cons.IH [of k'] Cons.prems k Cons by simp
    have e: "json_items (map w (x # xs)) @ CHR '']'' # rest = w x @ CHR '','' # CHR '' '' # ?tail"
      by (simp add: Cons)
    show ?thesis
      unfolding e k using px nb sk ih by (simp add: skip_ws_token skip_ws_space)
  qed
qed

lemma json_parse_list_roundtrip:
  assumes p: "\<And>x rest. rest \<noteq> [] \<Longrightarrow> hd rest = CHR '','' \<or> hd rest = CHR '']''
                \<Longrightarrow> p (w x @ rest) = Some (x, rest)"
    and w: "\<And>x. w x \<noteq> [] \<and> \<not> json_space (hd (w x)) \<and> hd (w x) \<noteq> CHR '']''"
  shows "json_parse_list p (json_list (map w xs) @ rest) = Some (xs, rest)"
proof (cases xs)
  case Nil
  have "\<not> json_space CHR '']''" by (simp add: json_space_def)
  then show ?thesis
    by (simp add: Nil json_parse_list_def json_list_def skip_ws_token)
next
  case (Cons y ys)
  let ?r = "json_items (map w xs) @ CHR '']'' # rest"
  have w': "\<And>x. w x \<noteq> [] \<and> \<not> json_space (hd (w x))" using w by blast
  obtain t where t: "?r = hd (w y) # t"
    using json_items_start [of "map w xs" "CHR '']'' # rest"] w [of y] by (auto simp: Cons)
  have sk: "skip_ws ?r = ?r"
    unfolding t using w [of y] by (simp add: skip_ws_token)
  have "length (map w xs) \<le> length (json_items (map w xs))"
    using w by (intro json_items_length) auto
  then have len: "length xs \<le> length ?r" by simp
  have items: "json_parse_items (length ?r) p ?r = Some (xs, rest)"
    using json_parse_items_roundtrip [of p w xs "length ?r" rest] p w' len by (simp add: Cons)
  have e: "json_list (map w xs) @ rest = CHR ''['' # ?r"
    by (simp add: json_list_def)
  have d: "(case skip_ws ?r of [] \<Rightarrow> None
             | d # r' \<Rightarrow> if d = CHR '']'' then Some ([], r')
                         else json_parse_items (length ?r) p (skip_ws ?r))
           = json_parse_items (length ?r) p ?r"
    unfolding sk using w [of y] by (simp add: t)
  show ?thesis
    unfolding e json_parse_list_def using d items by simp
qed

lemma json_string_start:
  "json_string s \<noteq> [] \<and> \<not> json_space (hd (json_string s)) \<and> hd (json_string s) \<noteq> CHR '']''"
  by (simp add: json_string_def json_space_def)

lemma py_str_start:
  "py_str i \<noteq> [] \<and> \<not> json_space (hd (py_str i)) \<and> hd (py_str i) \<noteq> CHR '']''"
proof -
  have d: "dec_digits n \<noteq> [] \<and> is_digit (hd (dec_digits n))" for n
    using dec_digits_digits [of n] by (cases "dec_digits n") auto
  have "is_digit c \<Longrightarrow> \<not> json_space c \<and> c \<noteq> CHR '']''" for c
    by (auto simp: is_digit_def json_space_def Let_def)
  then show ?thesis
    using d by (auto simp: py_str_def json_space_def)
qed

lemma json_color_start:
  "json_color c \<noteq> [] \<and> \<not> json_space (hd (json_color c)) \<and> hd (json_color c) \<noteq> CHR '']''"
  by (cases c rule: json_color.cases) (simp add: json_list_def json_space_def)

lemma json_parse_color_roundtrip: "json_parse_color (json_color c @ rest) = Some (c, rest)"
proof -
  obtain r g b where c: "c = (r, g, b)" by (cases c)
  have sep: "\<not> is_digit CHR '','' " "\<not> is_digit CHR '']''"
    by (simp_all add: is_digit_def)
  have "json_parse_list json_parse_int (json_list (map py_str [r, g, b]) @ rest)
          = Some ([r, g, b], rest)"
  proof (rule json_parse_list_roundtrip)
    fix x :: int and rest' :: string
    assume "rest' \<noteq> []" and "hd rest' = CHR '','' \<or> hd rest' = CHR '']''"
    then have "rest' = [] \<or> (\<not> is_digit (hd rest') \<and> hd rest' \<notin> set ''.eE'')"
      using sep by auto
    then show "json_parse_int (py_str x @ rest') = Some (x, rest')"
      by (rule json_parse_int_roundtrip)
  next
    fix x :: int
    show "py_str x \<noteq> [] \<and> \<not> json_space (hd (py_str x)) \<and> hd (py_str x) \<noteq> CHR '']''"
      by (rule py_str_start)
  qed
  then show ?thesis
    by (simp add: json_parse_color_def c)
qed

lemma json_parse_colors_roundtrip:
  "json_parse_list json_parse_color (json_list (map json_color cs) @ rest) = Some (cs, rest)"
  by (rule json_parse_list_roundtrip) (simp_all add: json_parse_color_roundtrip json_color_start)

lemma json_parse_strings_roundtrip:
  "json_parse_list json_parse_string (json_list (map json_string ss) @ rest) = Some (ss, rest)"
  by (rule json_parse_list_roundtrip) (simp_all add: json_parse_string_roundtrip json_string_start)


lemma skip_ws_json_string: "skip_ws (json_string s @ rest) = json_string s @ rest"
  by (simp add: json_string_def skip_ws_def json_space_def)

lemma skip_ws_json_list: "skip_ws (json_list xs @ rest) = json_list xs @ rest"
  by (simp add: json_list_def skip_ws_def json_space_def)

lemma expect_here: "\<not> json_space c \<Longrightarrow> expect c (c # rest) = Some rest"
  by (simp add: expect_def skip_ws_def)

lemma expect_key_here: "expect_key k (CHR '' '' # json_string k @ rest) = Some rest"
  "expect_key k (json_string k @ rest) = Some rest"
  by (simp_all add: expect_key_def skip_ws_space skip_ws_json_string json_parse_string_roundtrip)

lemma skip_ws_Nil: "skip_ws [] = []"
  by (simp add: skip_ws_def)

lemma json_punctuation:
  "\<not> json_space CHR ''{''" "\<not> json_space CHR ''}''" "\<not> json_space CHR '':''"
  "\<not> json_space CHR '',''"
  by (simp_all add: json_space_def)

text \<open>
  Claim C5. For every palette name, RGB list and hex list, parsing the written text gives one
  object whose \<open>name\<close> is the name and whose \<open>rgb\<close> and \<open>hex\<close> lists are the two lists, in
  the same order and of the same length, the RGB components being integers.
\<close>

theorem json_export_roundtrip:
  "json_decode (ExportToJSon_export palette_name palette_rgb palette_hex)
     = Some (palette_name, palette_rgb, palette_hex)"
  by (simp add: json_decode_def ExportToJSon_export_def expect_here expect_key_here
      json_punctuation skip_ws_space skip_ws_json_string skip_ws_json_list
      json_parse_string_roundtrip json_parse_colors_roundtrip json_parse_strings_roundtrip
      skip_ws_Nil)

theorem json_export_roundtrip_witness:
  "json_decode (ExportToJSon_export (''a'' @ [DQ, BS, LF] @ ''b'') [(255, 255, 255), (0, 0, 0)]
      [''#FFFFFF'', ''#000000''])
     = Some (''a'' @ [DQ, BS, LF] @ ''b'', [(255, 255, 255), (0, 0, 0)], [''#FFFFFF'', ''#000000''])
   \<and> ExportToJSon_export ''p'' [(255, 255, 255), (0, 0, 0)] [''#FFFFFF'', ''#000000'']
     = ''{'' @ [DQ] @ ''name'' @ [DQ] @ '': '' @ [DQ] @ ''p'' @ [DQ] @ '', ''
       @ [DQ] @ ''rgb'' @ [DQ] @ '': [[255, 255, 255], [0, 0, 0]], ''
       @ [DQ] @ ''hex'' @ [DQ] @ '': ['' @ [DQ] @ ''#FFFFFF'' @ [DQ] @ '', ''
       @ [DQ] @ ''#000000'' @ [DQ] @ '']}''"
proof -
  have "ExportToJSon_export ''p'' [(255, 255, 255), (0, 0, 0)] [''#FFFFFF'', ''#000000'']
     = ''{'' @ [DQ] @ ''name'' @ [DQ] @ '': '' @ [DQ] @ ''p'' @ [DQ] @ '', ''
       @ [DQ] @ ''rgb'' @ [DQ] @ '': [[255, 255, 255], [0, 0, 0]], ''
       @ [DQ] @ ''hex'' @ [DQ] @ '': ['' @ [DQ] @ ''#FFFFFF'' @ [DQ] @ '', ''
       @ [DQ] @ ''#000000'' @ [DQ] @ '']}''"
    by code_simp
  then show ?thesis
    using json_export_roundtrip [of "''a'' @ [DQ, BS, LF] @ ''b''" "[(255, 255, 255), (0, 0, 0)]"
        "[''#FFFFFF'', ''#000000'']"]
    by blast
qed


end
